theory Spec2Isabelle
  imports Main "HOL-Library.Sublist"
begin

section \<open>The schema\<close>

text \<open>
  The four tables of the migration scripts, and the \<open>auth.users\<close> table that
  \<open>public.users\<close> references. Identifiers (\<open>uuid\<close>) and \<open>text\<close> columns are strings,
  \<open>timestamptz\<close> is a clock reading. A column declared without \<open>NOT NULL\<close>
  (\<open>access\<close>, \<open>is_admin\<close>, \<open>description\<close>) is an \<open>option\<close>, \<open>None\<close> being SQL's NULL.
  A row is given with its defaults (\<open>gen_random_uuid()\<close>, \<open>now()\<close>) already filled in.
\<close>

type_synonym uuid = string
type_synonym timestamptz = nat

record auth_users_row =
  auth_id :: uuid
  auth_email :: string

record users_row =
  users_id :: uuid
  users_email :: string
  users_access :: "bool option"
  users_is_admin :: "bool option"
  users_created_at :: timestamptz

record subjects_row =
  subjects_id :: uuid
  subjects_name :: string
  subjects_description :: "string option"
  subjects_created_at :: timestamptz

record notes_row =
  notes_id :: uuid
  notes_subject_id :: uuid
  notes_title :: string
  notes_pdf_url :: string
  notes_created_at :: timestamptz

record videos_row =
  videos_id :: uuid
  videos_subject_id :: uuid
  videos_title :: string
  videos_youtube_url :: string
  videos_created_at :: timestamptz

record database =
  auth_users :: "auth_users_row list"
  public_users :: "users_row list"
  public_subjects :: "subjects_row list"
  public_notes :: "notes_row list"
  public_videos :: "videos_row list"

datatype command = SELECT | INSERT | UPDATE | DELETE

datatype relation = rel_users | rel_subjects | rel_notes | rel_videos

datatype pg_error =
    infinite_recursion
  | rls_violation
  | unique_violation
  | foreign_key_violation

text \<open>
  The declared constraints: \<open>PRIMARY KEY\<close> on every \<open>id\<close>, \<open>UNIQUE\<close> on
  \<open>users.email\<close>, and the three \<open>REFERENCES\<close> clauses.
\<close>

definition primary_keys :: "database \<Rightarrow> bool" where
  "primary_keys db \<longleftrightarrow>
     distinct (map auth_id (auth_users db)) \<and>
     distinct (map users_id (public_users db)) \<and>
     distinct (map users_email (public_users db)) \<and>
     distinct (map subjects_id (public_subjects db)) \<and>
     distinct (map notes_id (public_notes db)) \<and>
     distinct (map videos_id (public_videos db))"

definition foreign_keys :: "database \<Rightarrow> bool" where
  "foreign_keys db \<longleftrightarrow>
     list_all (\<lambda>u. users_id u \<in> set (map auth_id (auth_users db))) (public_users db) \<and>
     list_all (\<lambda>n. notes_subject_id n \<in> set (map subjects_id (public_subjects db))) (public_notes db) \<and>
     list_all (\<lambda>v. videos_subject_id v \<in> set (map subjects_id (public_subjects db))) (public_videos db)"

section \<open>Row level security policies\<close>

text \<open>
  A request is one of a session of role \<open>authenticated\<close> and carries its \<open>auth.uid()\<close>.
  A comparison with NULL is not true, so \<open>is_admin = true\<close> and \<open>access = true\<close> hold of
  the flag \<open>Some True\<close> only. The migration scripts declare the same ten policies on
  the four tables; the clause \<open>TO authenticated\<close>, which some of them add, makes no
  difference to such a session.

  Row level security is enabled on every table, so the policies of a table are added to
  each statement that names it: the policies for the command are joined by OR. This is
  done before the statement runs, and it is done again for the tables that the
  sub-selects of the added policies name. While the policies of a table are being
  expanded the table is on the list \<open>activeRIRs\<close>; when a sub-select names a table
  that is on the list, the statement is aborted with error 42P17, "infinite recursion
  detected in policy for relation".
\<close>

definition Users_can_read_own_data :: "uuid \<Rightarrow> users_row \<Rightarrow> bool" where
  "Users_can_read_own_data uid r \<longleftrightarrow> uid = users_id r"

definition Users_can_update_own_data :: "uuid \<Rightarrow> users_row \<Rightarrow> bool" where
  "Users_can_update_own_data uid r \<longleftrightarrow> uid = users_id r"

text \<open>
  \<open>from_users\<close> is what a \<open>FROM users\<close> reads, in a statement or in a sub-select: the
  rows that "Users can read own data" or "Admins can read all users" admit. The second
  policy is the sub-select \<open>exists_admin\<close>, which reads \<open>users\<close> in turn.
\<close>

function from_users :: "relation list \<Rightarrow> database \<Rightarrow> uuid \<Rightarrow> pg_error + users_row list"
  and exists_admin :: "relation list \<Rightarrow> database \<Rightarrow> uuid \<Rightarrow> pg_error + bool" where
  "from_users activeRIRs db uid =
     (if rel_users \<in> set activeRIRs then Inl infinite_recursion
      else case exists_admin (activeRIRs @ [rel_users]) db uid of
             Inl e \<Rightarrow> Inl e
           | Inr admin \<Rightarrow>
               Inr (filter (\<lambda>r. Users_can_read_own_data uid r \<or> admin) (public_users db)))"
| "exists_admin activeRIRs db uid =
     (case from_users activeRIRs db uid of
        Inl e \<Rightarrow> Inl e
      | Inr visible \<Rightarrow>
          Inr (list_ex (\<lambda>u. users_id u = uid \<and> users_is_admin u = Some True) visible))"
  by pat_completeness auto
termination
  by (relation "measure (\<lambda>x. case x of
          Inl (activeRIRs, db, uid) \<Rightarrow> (if rel_users \<in> set activeRIRs then 0 else 2)
        | Inr (activeRIRs, db, uid) \<Rightarrow> (if rel_users \<in> set activeRIRs then 1 else 3))")
    auto

definition exists_access :: "relation list \<Rightarrow> database \<Rightarrow> uuid \<Rightarrow> pg_error + bool" where
  \<comment> \<open>\<open>EXISTS (SELECT 1 FROM users WHERE id = auth.uid() AND access = true)\<close>\<close>
  "exists_access activeRIRs db uid =
     (case from_users activeRIRs db uid of
        Inl e \<Rightarrow> Inl e
      | Inr visible \<Rightarrow>
          Inr (list_ex (\<lambda>u. users_id u = uid \<and> users_access u = Some True) visible))"

definition Admins_can_update_all_users :: "database \<Rightarrow> uuid \<Rightarrow> pg_error + bool" where
  "Admins_can_update_all_users db uid = exists_admin [rel_users] db uid"

definition Authenticated_users_can_read_subjects :: bool where
  \<comment> \<open>\<open>FOR SELECT TO authenticated USING (true)\<close>\<close>
  "Authenticated_users_can_read_subjects \<longleftrightarrow> True"

definition Admins_can_manage_subjects :: "database \<Rightarrow> uuid \<Rightarrow> pg_error + bool" where
  "Admins_can_manage_subjects db uid = exists_admin [rel_subjects] db uid"

definition Users_with_access_can_read_notes :: "database \<Rightarrow> uuid \<Rightarrow> pg_error + bool" where
  "Users_with_access_can_read_notes db uid = exists_access [rel_notes] db uid"

definition Admins_can_manage_notes :: "database \<Rightarrow> uuid \<Rightarrow> pg_error + bool" where
  "Admins_can_manage_notes db uid = exists_admin [rel_notes] db uid"

definition Users_with_access_can_read_videos :: "database \<Rightarrow> uuid \<Rightarrow> pg_error + bool" where
  "Users_with_access_can_read_videos db uid = exists_access [rel_videos] db uid"

definition Admins_can_manage_videos :: "database \<Rightarrow> uuid \<Rightarrow> pg_error + bool" where
  "Admins_can_manage_videos db uid = exists_admin [rel_videos] db uid"

text \<open>
  The policies of a table for a command, joined: a row is reached when one of them
  holds of it, and every one of them is expanded, whatever the others give. A
  \<open>FOR ALL\<close> policy counts for each of the four commands. Only \<open>SELECT\<close> and \<open>UPDATE\<close>
  of \<open>users\<close> are requests of the client.
\<close>

definition permissive :: "(pg_error + bool) \<Rightarrow> (pg_error + bool) \<Rightarrow> pg_error + bool" where
  "permissive p q =
     (case p of
        Inl e \<Rightarrow> Inl e
      | Inr a \<Rightarrow> (case q of Inl e \<Rightarrow> Inl e | Inr b \<Rightarrow> Inr (a \<or> b)))"

definition users_policy_UPDATE :: "database \<Rightarrow> uuid \<Rightarrow> pg_error + (users_row \<Rightarrow> bool)" where
  "users_policy_UPDATE db uid =
     (case Admins_can_update_all_users db uid of
        Inl e \<Rightarrow> Inl e
      | Inr admin \<Rightarrow> Inr (\<lambda>r. Users_can_update_own_data uid r \<or> admin))"

fun subjects_policy :: "database \<Rightarrow> uuid \<Rightarrow> command \<Rightarrow> pg_error + bool" where
  "subjects_policy db uid SELECT =
     permissive (Inr Authenticated_users_can_read_subjects) (Admins_can_manage_subjects db uid)"
| "subjects_policy db uid INSERT = Admins_can_manage_subjects db uid"
| "subjects_policy db uid UPDATE = Admins_can_manage_subjects db uid"
| "subjects_policy db uid DELETE = Admins_can_manage_subjects db uid"

fun notes_policy :: "database \<Rightarrow> uuid \<Rightarrow> command \<Rightarrow> pg_error + bool" where
  "notes_policy db uid SELECT =
     permissive (Users_with_access_can_read_notes db uid) (Admins_can_manage_notes db uid)"
| "notes_policy db uid INSERT = Admins_can_manage_notes db uid"
| "notes_policy db uid UPDATE = Admins_can_manage_notes db uid"
| "notes_policy db uid DELETE = Admins_can_manage_notes db uid"

fun videos_policy :: "database \<Rightarrow> uuid \<Rightarrow> command \<Rightarrow> pg_error + bool" where
  "videos_policy db uid SELECT =
     permissive (Users_with_access_can_read_videos db uid) (Admins_can_manage_videos db uid)"
| "videos_policy db uid INSERT = Admins_can_manage_videos db uid"
| "videos_policy db uid UPDATE = Admins_can_manage_videos db uid"
| "videos_policy db uid DELETE = Admins_can_manage_videos db uid"

text \<open>
  An \<open>UPDATE\<close> or \<open>DELETE\<close> with a \<open>WHERE\<close> clause reads the rows it is to change, so
  the policies for \<open>SELECT\<close> are added to it as well.
\<close>

definition reading :: "(pg_error + bool) \<Rightarrow> (pg_error + bool) \<Rightarrow> pg_error + bool" where
  "reading select_policy command_policy =
     (case select_policy of
        Inl e \<Rightarrow> Inl e
      | Inr s \<Rightarrow> (case command_policy of Inl e \<Rightarrow> Inl e | Inr c \<Rightarrow> Inr (s \<and> c)))"

section \<open>Queries\<close>

text \<open>
  \<open>supabase.from(t).select(...)\<close>: an error, or the rows of the table that the policies
  for \<open>SELECT\<close> let the session see. \<open>select('*, subjects(name)')\<close> embeds in each row
  the name of the subject it references, read from \<open>subjects\<close> under its policies. The
  \<open>order\<close> clause only permutes the rows and is left out: rows come in table order.
\<close>

definition select_users :: "database \<Rightarrow> uuid \<Rightarrow> pg_error + users_row list" where
  "select_users db uid = from_users [] db uid"

definition select_subjects :: "database \<Rightarrow> uuid \<Rightarrow> pg_error + subjects_row list" where
  "select_subjects db uid =
     (case subjects_policy db uid SELECT of
        Inl e \<Rightarrow> Inl e
      | Inr visible \<Rightarrow> Inr (filter (\<lambda>r. visible) (public_subjects db)))"

definition subjects_name_of :: "subjects_row list \<Rightarrow> uuid \<Rightarrow> string option" where
  "subjects_name_of visible sid =
     map_option subjects_name (find (\<lambda>s. subjects_id s = sid) visible)"

definition select_notes :: "database \<Rightarrow> uuid \<Rightarrow> pg_error + (notes_row \<times> string option) list" where
  "select_notes db uid =
     (case notes_policy db uid SELECT of
        Inl e \<Rightarrow> Inl e
      | Inr visible \<Rightarrow>
          (case select_subjects db uid of
             Inl e \<Rightarrow> Inl e
           | Inr subjects \<Rightarrow>
               Inr (map (\<lambda>n. (n, subjects_name_of subjects (notes_subject_id n)))
                      (filter (\<lambda>r. visible) (public_notes db)))))"

definition select_videos :: "database \<Rightarrow> uuid \<Rightarrow> pg_error + (videos_row \<times> string option) list" where
  "select_videos db uid =
     (case videos_policy db uid SELECT of
        Inl e \<Rightarrow> Inl e
      | Inr visible \<Rightarrow>
          (case select_subjects db uid of
             Inl e \<Rightarrow> Inl e
           | Inr subjects \<Rightarrow>
               Inr (map (\<lambda>v. (v, subjects_name_of subjects (videos_subject_id v)))
                      (filter (\<lambda>r. visible) (public_videos db)))))"

definition data_or_empty :: "pg_error + 'a list \<Rightarrow> 'a list" where
  \<comment> \<open>the rows a response carries: \<open>data\<close> is \<open>null\<close> beside an error\<close>
  "data_or_empty response = (case response of Inl error \<Rightarrow> [] | Inr rows \<Rightarrow> rows)"

section \<open>Writes\<close>

text \<open>
  \<open>insert\<close>: the new row must pass a policy for \<open>INSERT\<close> (a \<open>FOR ALL\<close> policy checks
  the new row with its \<open>USING\<close> expression), else the statement fails with "new row
  violates row-level security policy"; then the primary key and the foreign key are
  checked. With \<open>.select()\<close> the row is returned, so the policies for \<open>SELECT\<close> are
  added and the row must be visible as well.
\<close>

definition insert_subjects :: "database \<Rightarrow> uuid \<Rightarrow> subjects_row \<Rightarrow> pg_error + database" where
  "insert_subjects db uid row =
     (case subjects_policy db uid INSERT of
        Inl e \<Rightarrow> Inl e
      | Inr check \<Rightarrow>
          if \<not> check then Inl rls_violation
          else if subjects_id row \<in> set (map subjects_id (public_subjects db))
            then Inl unique_violation
          else Inr (db\<lparr>public_subjects := public_subjects db @ [row]\<rparr>))"

definition insert_subjects_select_single ::
    "database \<Rightarrow> uuid \<Rightarrow> subjects_row \<Rightarrow> pg_error + database \<times> subjects_row" where
  "insert_subjects_select_single db uid row =
     (case subjects_policy db uid SELECT of
        Inl e \<Rightarrow> Inl e
      | Inr visible \<Rightarrow>
          (case insert_subjects db uid row of
             Inl e \<Rightarrow> Inl e
           | Inr db' \<Rightarrow> if \<not> visible then Inl rls_violation else Inr (db', row)))"

definition insert_notes :: "database \<Rightarrow> uuid \<Rightarrow> notes_row \<Rightarrow> pg_error + database" where
  "insert_notes db uid row =
     (case notes_policy db uid INSERT of
        Inl e \<Rightarrow> Inl e
      | Inr check \<Rightarrow>
          if \<not> check then Inl rls_violation
          else if notes_id row \<in> set (map notes_id (public_notes db)) then Inl unique_violation
          else if notes_subject_id row \<notin> set (map subjects_id (public_subjects db))
            then Inl foreign_key_violation
          else Inr (db\<lparr>public_notes := public_notes db @ [row]\<rparr>))"

definition insert_videos :: "database \<Rightarrow> uuid \<Rightarrow> videos_row \<Rightarrow> pg_error + database" where
  "insert_videos db uid row =
     (case videos_policy db uid INSERT of
        Inl e \<Rightarrow> Inl e
      | Inr check \<Rightarrow>
          if \<not> check then Inl rls_violation
          else if videos_id row \<in> set (map videos_id (public_videos db)) then Inl unique_violation
          else if videos_subject_id row \<notin> set (map subjects_id (public_subjects db))
            then Inl foreign_key_violation
          else Inr (db\<lparr>public_videos := public_videos db @ [row]\<rparr>))"

text \<open>
  \<open>update(...).eq('id', x)\<close> and \<open>delete().eq('id', x)\<close>: the statement touches the rows
  with that id which the policies for the command and for \<open>SELECT\<close> let the session
  reach; every other row is left as it is, and no error is raised for it. An updated
  row must pass the policies for \<open>UPDATE\<close> again in its new state, else the statement
  fails; the policies of \<open>subjects\<close> do not look at the row, so a row of \<open>subjects\<close>
  that was reached passes.
\<close>

record users_update =
  set_access :: "bool option option"
  set_is_admin :: "bool option option"

definition apply_users_update :: "users_update \<Rightarrow> users_row \<Rightarrow> users_row" where
  \<comment> \<open>the columns named in the request body are assigned, the others kept\<close>
  "apply_users_update body r =
     r\<lparr>users_access := (case set_access body of None \<Rightarrow> users_access r | Some v \<Rightarrow> v),
       users_is_admin := (case set_is_admin body of None \<Rightarrow> users_is_admin r | Some v \<Rightarrow> v)\<rparr>"

definition update_users ::
    "database \<Rightarrow> uuid \<Rightarrow> users_update \<Rightarrow> uuid \<Rightarrow> pg_error + database" where
  "update_users db uid body userId =
     (case users_policy_UPDATE db uid of
        Inl e \<Rightarrow> Inl e
      | Inr admitted \<Rightarrow>
          (case from_users [] db uid of
             Inl e \<Rightarrow> Inl e
           | Inr visible \<Rightarrow>
               let target = (\<lambda>r. users_id r = userId \<and> r \<in> set visible \<and> admitted r) in
               if list_ex (\<lambda>r. target r \<and> \<not> admitted (apply_users_update body r)) (public_users db)
               then Inl rls_violation
               else Inr (db\<lparr>public_users :=
                           map (\<lambda>r. if target r then apply_users_update body r else r)
                             (public_users db)\<rparr>)))"

definition update_subjects ::
    "database \<Rightarrow> uuid \<Rightarrow> string \<Rightarrow> string option \<Rightarrow> uuid \<Rightarrow> pg_error + database" where
  "update_subjects db uid name description sid =
     (case reading (subjects_policy db uid SELECT) (subjects_policy db uid UPDATE) of
        Inl e \<Rightarrow> Inl e
      | Inr reached \<Rightarrow>
          Inr (db\<lparr>public_subjects :=
                 map (\<lambda>r. if subjects_id r = sid \<and> reached
                           then r\<lparr>subjects_name := name, subjects_description := description\<rparr>
                           else r)
                   (public_subjects db)\<rparr>))"

text \<open>
  A \<open>DELETE\<close> on \<open>subjects\<close> fires \<open>ON DELETE CASCADE\<close> of \<open>notes.subject_id\<close> and
  \<open>videos.subject_id\<close>: the referencing rows go with the deleted subjects, whatever the
  policies of \<open>notes\<close> and \<open>videos\<close> say. \<open>delete_from_subjects\<close> is the statement on
  the rows it reaches, \<open>delete_subjects\<close> the request of a session, which reaches what
  the policies admit.
\<close>

definition delete_from_subjects :: "database \<Rightarrow> (subjects_row \<Rightarrow> bool) \<Rightarrow> database" where
  "delete_from_subjects db reached =
     (let gone = map subjects_id (filter reached (public_subjects db)) in
      db\<lparr>public_subjects := filter (\<lambda>r. \<not> reached r) (public_subjects db),
         public_notes := filter (\<lambda>n. notes_subject_id n \<notin> set gone) (public_notes db),
         public_videos := filter (\<lambda>v. videos_subject_id v \<notin> set gone) (public_videos db)\<rparr>)"

definition delete_subjects :: "database \<Rightarrow> uuid \<Rightarrow> uuid \<Rightarrow> pg_error + database" where
  "delete_subjects db uid sid =
     (case reading (subjects_policy db uid SELECT) (subjects_policy db uid DELETE) of
        Inl e \<Rightarrow> Inl e
      | Inr reached \<Rightarrow> Inr (delete_from_subjects db (\<lambda>r. subjects_id r = sid \<and> reached)))"

definition delete_notes :: "database \<Rightarrow> uuid \<Rightarrow> uuid \<Rightarrow> pg_error + database" where
  "delete_notes db uid noteId =
     (case reading (notes_policy db uid SELECT) (notes_policy db uid DELETE) of
        Inl e \<Rightarrow> Inl e
      | Inr reached \<Rightarrow>
          Inr (db\<lparr>public_notes :=
                 filter (\<lambda>r. \<not> (notes_id r = noteId \<and> reached)) (public_notes db)\<rparr>))"

definition delete_videos :: "database \<Rightarrow> uuid \<Rightarrow> uuid \<Rightarrow> pg_error + database" where
  "delete_videos db uid videoId =
     (case reading (videos_policy db uid SELECT) (videos_policy db uid DELETE) of
        Inl e \<Rightarrow> Inl e
      | Inr reached \<Rightarrow>
          Inr (db\<lparr>public_videos :=
                 filter (\<lambda>r. \<not> (videos_id r = videoId \<and> reached)) (public_videos db)\<rparr>))"

section \<open>Account provisioning\<close>

text \<open>
  \<open>handle_new_user\<close> is \<open>SECURITY DEFINER\<close>: its \<open>INSERT INTO public.users\<close> runs as the
  owner of the table, past the policies, and under the constraints of the table only.
  The function is declared twice with different bodies. In \<open>handle_new_user\<close> an error
  of the insert leaves the function, and with it the statement that fired the
  trigger. \<open>handle_new_user_logging\<close> is the declaration with the block
  \<open>EXCEPTION WHEN others THEN RAISE LOG ...; RETURN NEW\<close>: the insert is undone, the
  error goes to the server log and the function returns normally.
\<close>

definition insert_users_definer :: "database \<Rightarrow> users_row \<Rightarrow> pg_error + database" where
  "insert_users_definer db row =
     (if users_id row \<in> set (map users_id (public_users db)) then Inl unique_violation
      else if users_email row \<in> set (map users_email (public_users db)) then Inl unique_violation
      else if users_id row \<notin> set (map auth_id (auth_users db)) then Inl foreign_key_violation
      else Inr (db\<lparr>public_users := public_users db @ [row]\<rparr>))"

definition handle_new_user ::
    "database \<Rightarrow> timestamptz \<Rightarrow> auth_users_row \<Rightarrow> pg_error + database \<times> pg_error list" where
  "handle_new_user db now new =
     (case insert_users_definer db
             \<lparr>users_id = auth_id new, users_email = auth_email new,
              users_access = Some False, users_is_admin = Some False,
              users_created_at = now\<rparr> of
        Inl e \<Rightarrow> Inl e
      | Inr db' \<Rightarrow> Inr (db', []))"

definition handle_new_user_logging ::
    "database \<Rightarrow> timestamptz \<Rightarrow> auth_users_row \<Rightarrow> pg_error + database \<times> pg_error list" where
  "handle_new_user_logging db now new =
     (case insert_users_definer db
             \<lparr>users_id = auth_id new, users_email = auth_email new,
              users_access = Some False, users_is_admin = Some False,
              users_created_at = now\<rparr> of
        Inl e \<Rightarrow> Inr (db, [e])
      | Inr db' \<Rightarrow> Inr (db', []))"

text \<open>
  \<open>on_auth_user_created\<close>: \<open>AFTER INSERT ON auth.users FOR EACH ROW\<close>. The statement
  inserts the row (the primary key of \<open>auth.users\<close> permitting) and then runs the
  trigger function on it; an error of the function fails the statement, which then
  leaves the database as it was. The second component is what went to the server log.
\<close>

type_synonym trigger_function =
  "database \<Rightarrow> timestamptz \<Rightarrow> auth_users_row \<Rightarrow> pg_error + database \<times> pg_error list"

definition insert_auth_users ::
    "trigger_function \<Rightarrow> database \<Rightarrow> timestamptz \<Rightarrow> auth_users_row
      \<Rightarrow> pg_error + database \<times> pg_error list" where
  "insert_auth_users on_auth_user_created db now new =
     (if auth_id new \<in> set (map auth_id (auth_users db)) then Inl unique_violation
      else on_auth_user_created (db\<lparr>auth_users := auth_users db @ [new]\<rparr>) now new)"

definition authenticate ::
    "trigger_function \<Rightarrow> database \<Rightarrow> timestamptz \<Rightarrow> auth_users_row
      \<Rightarrow> pg_error + database \<times> pg_error list" where
  \<comment> \<open>Modelled from the spec: the sign-in of \<open>contexts/AuthContext.tsx\<close> and the Auth
      service behind it are not among the sources. An identity gets its \<open>auth.users\<close>
      row when it first authenticates; a later authentication finds the row and inserts
      nothing, so no trigger fires.\<close>
  "authenticate on_auth_user_created db now ident =
     (if auth_id ident \<in> set (map auth_id (auth_users db)) then Inr (db, [])
      else insert_auth_users on_auth_user_created db now ident)"

fun authentications ::
    "trigger_function \<Rightarrow> database \<Rightarrow> timestamptz list \<Rightarrow> auth_users_row \<Rightarrow> database" where
  "authentications on_auth_user_created db [] ident = db"
| "authentications on_auth_user_created db (now # later) ident =
     authentications on_auth_user_created
       (case authenticate on_auth_user_created db now ident of
          Inl e \<Rightarrow> db
        | Inr (db', logged) \<Rightarrow> db')
       later ident"

definition accounts_of :: "database \<Rightarrow> uuid \<Rightarrow> users_row list" where
  "accounts_of db i = filter (\<lambda>r. users_id r = i) (public_users db)"

text \<open>
  The row the trigger function inserts, and the database an authentication leaves: that
  of the statement when it succeeds, the one before when it fails.
\<close>

definition profile :: "timestamptz \<Rightarrow> auth_users_row \<Rightarrow> users_row" where
  "profile now new =
     \<lparr>users_id = auth_id new, users_email = auth_email new, users_access = Some False,
      users_is_admin = Some False, users_created_at = now\<rparr>"

definition authenticated :: "trigger_function \<Rightarrow> database \<Rightarrow> timestamptz \<Rightarrow> auth_users_row \<Rightarrow> database" where
  "authenticated trig db now ident =
     (case authenticate trig db now ident of Inl e \<Rightarrow> db | Inr (db', logged) \<Rightarrow> db')"

section \<open>The client\<close>

text \<open>
  A handler is a function of the database, the session and the state of its component.
  An \<open>async\<close> handler returns a promise: \<open>Inl reason\<close> is the promise rejected with
  that reason, \<open>Inr\<close> the promise fulfilled, with the database and the component state
  the handler leaves and what it wrote with \<open>console.error\<close>. Inside a handler a
  \<open>throw\<close> is \<open>Inl\<close> as well, up to the \<open>catch\<close> that receives it. Requests that do
  not reach the store (network failures) are outside the model.
\<close>

datatype js_error = PostgrestError pg_error | StorageError string

datatype console_entry = console_error string js_error

type_synonym 's promise = "js_error + database \<times> 's \<times> console_entry list"

subsection \<open>Dashboard\<close>

definition getYouTubeVideoId_class :: "char \<Rightarrow> bool" where
  \<comment> \<open>the character class \<open>[^&\n?#]\<close>\<close>
  "getYouTubeVideoId_class c \<longleftrightarrow> c \<notin> {CHR ''&'', CHR 0x0A, CHR ''?'', CHR ''#''}"

definition getYouTubeVideoId_group :: "string \<Rightarrow> string option" where
  \<comment> \<open>the group \<open>([^&\n?#]+)\<close> at the head of the input: greedy, one character at least\<close>
  "getYouTubeVideoId_group s =
     (let g = takeWhile getYouTubeVideoId_class s in if g = [] then None else Some g)"

definition getYouTubeVideoId_at :: "string \<Rightarrow> string option" where
  \<comment> \<open>the whole pattern at the head of the input: the first alternative, and the second
      when no match comes of the first\<close>
  "getYouTubeVideoId_at s =
     (case (if prefix ''youtube.com/watch?v='' s
            then getYouTubeVideoId_group (drop (length ''youtube.com/watch?v='') s)
            else None) of
        Some g \<Rightarrow> Some g
      | None \<Rightarrow>
          if prefix ''youtu.be/'' s
          then getYouTubeVideoId_group (drop (length ''youtu.be/'') s)
          else None)"

fun getYouTubeVideoId :: "string \<Rightarrow> string option" where
  \<comment> \<open>\<open>url.match(...)\<close>: the pattern is tried at each position from the left, and the
      first position with a match gives \<open>match[1]\<close>; \<open>None\<close> is \<open>null\<close>\<close>
  "getYouTubeVideoId [] = getYouTubeVideoId_at []"
| "getYouTubeVideoId (c # cs) =
     (case getYouTubeVideoId_at (c # cs) of
        Some g \<Rightarrow> Some g
      | None \<Rightarrow> getYouTubeVideoId cs)"

definition thumbnail :: "string \<Rightarrow> string option" where
  \<comment> \<open>\<open>videoId && <img src=...>\<close>: nothing is rendered for \<open>null\<close> or an empty string\<close>
  "thumbnail youtube_url =
     (case getYouTubeVideoId youtube_url of
        None \<Rightarrow> None
      | Some videoId \<Rightarrow>
          if videoId = [] then None
          else Some (''https://img.youtube.com/vi/'' @ videoId @ ''/maxresdefault.jpg''))"

record Dashboard_state =
  dash_subjects :: "subjects_row list"
  dash_notes :: "(notes_row \<times> string option) list"
  dash_videos :: "(videos_row \<times> string option) list"
  dash_loading :: bool

datatype request = from_subjects | from_notes | from_videos

definition Dashboard_initial :: Dashboard_state where
  "Dashboard_initial =
     \<lparr>dash_subjects = [], dash_notes = [], dash_videos = [], dash_loading = True\<rparr>"

definition user_access :: "users_row option \<Rightarrow> bool" where
  \<comment> \<open>\<open>user?.access\<close> as a condition: false for no profile and for a flag that is false
      or NULL\<close>
  "user_access user = (case user of None \<Rightarrow> False | Some u \<Rightarrow> users_access u = Some True)"

definition fetchContent ::
    "database \<Rightarrow> uuid \<Rightarrow> Dashboard_state \<Rightarrow> Dashboard_state \<times> request list" where
  \<comment> \<open>\<open>if (response.data) set...(response.data)\<close>: a response with an error carries no
      data and leaves the list as it is\<close>
  "fetchContent db uid st =
     (st\<lparr>dash_subjects :=
           (case select_subjects db uid of Inl error \<Rightarrow> dash_subjects st | Inr rows \<Rightarrow> rows),
         dash_notes :=
           (case select_notes db uid of Inl error \<Rightarrow> dash_notes st | Inr rows \<Rightarrow> rows),
         dash_videos :=
           (case select_videos db uid of Inl error \<Rightarrow> dash_videos st | Inr rows \<Rightarrow> rows),
         dash_loading := False\<rparr>,
      [from_subjects, from_notes, from_videos])"

definition Dashboard_useEffect ::
    "database \<Rightarrow> uuid \<Rightarrow> users_row option \<Rightarrow> Dashboard_state
      \<Rightarrow> Dashboard_state \<times> request list" where
  \<comment> \<open>the effect on \<open>[user]\<close>; the second component lists the queries it sent\<close>
  "Dashboard_useEffect db uid user st =
     (if user_access user then fetchContent db uid st
      else (st\<lparr>dash_loading := False\<rparr>, []))"

datatype view =
    Spinner
  | Access_Pending
  | Content "subjects_row list" "(notes_row \<times> string option) list"
      "(videos_row \<times> string option \<times> string option) list"

definition Dashboard_render :: "users_row option \<Rightarrow> Dashboard_state \<Rightarrow> view" where
  "Dashboard_render user st =
     (if dash_loading st then Spinner
      else if \<not> user_access user then Access_Pending
      else Content (dash_subjects st) (take 6 (dash_notes st))
             (map (\<lambda>(v, name). (v, name, thumbnail (videos_youtube_url v)))
                (take 4 (dash_videos st))))"

subsection \<open>UserManagement\<close>

record UserManagement_state =
  um_users :: "users_row list"
  um_loading :: bool

definition toggleUserAccess ::
    "database \<Rightarrow> uuid \<Rightarrow> uuid \<Rightarrow> bool \<Rightarrow> UserManagement_state
      \<Rightarrow> UserManagement_state promise" where
  "toggleUserAccess db uid userId currentAccess st =
     (case update_users db uid
             \<lparr>set_access = Some (Some (\<not> currentAccess)), set_is_admin = None\<rparr> userId of
        Inl error \<Rightarrow>
          Inr (db, st, [console_error ''Error updating user access:'' (PostgrestError error)])
      | Inr db' \<Rightarrow>
          Inr (db',
               st\<lparr>um_users :=
                    map (\<lambda>user. if users_id user = userId
                                 then user\<lparr>users_access := Some (\<not> currentAccess)\<rparr>
                                 else user) (um_users st)\<rparr>,
               []))"

definition toggleAdminStatus ::
    "database \<Rightarrow> uuid \<Rightarrow> uuid \<Rightarrow> bool \<Rightarrow> UserManagement_state
      \<Rightarrow> UserManagement_state promise" where
  "toggleAdminStatus db uid userId currentAdmin st =
     (case update_users db uid
             \<lparr>set_access = None, set_is_admin = Some (Some (\<not> currentAdmin))\<rparr> userId of
        Inl error \<Rightarrow>
          Inr (db, st, [console_error ''Error updating admin status:'' (PostgrestError error)])
      | Inr db' \<Rightarrow>
          Inr (db',
               st\<lparr>um_users :=
                    map (\<lambda>user. if users_id user = userId
                                 then user\<lparr>users_is_admin := Some (\<not> currentAdmin)\<rparr>
                                 else user) (um_users st)\<rparr>,
               []))"

subsection \<open>SubjectManagement\<close>

text \<open>
  \<open>String.prototype.trim\<close> strips white space and line terminators from both ends.
  A \<open>char\<close> stands for a code unit below 256; of those, the ones stripped are
  TAB, LF, VT, FF, CR, SP and NBSP.
\<close>

definition WhiteSpace :: "char \<Rightarrow> bool" where
  "WhiteSpace c \<longleftrightarrow>
     c \<in> {CHR 0x09, CHR 0x0A, CHR 0x0B, CHR 0x0C, CHR 0x0D, CHR 0x20, CHR 0xA0}"

definition trim :: "string \<Rightarrow> string" where
  "trim s = rev (dropWhile WhiteSpace (rev (dropWhile WhiteSpace s)))"

record EditingSubject =
  editing_id :: "uuid option"
  editing_name :: string
  editing_description :: "string option"

record SubjectManagement_state =
  sm_subjects :: "subjects_row list"
  sm_loading :: bool
  sm_editingSubject :: "EditingSubject option"
  sm_isAdding :: bool

definition trim_or_null :: "string option \<Rightarrow> string option" where
  \<comment> \<open>\<open>editingSubject.description?.trim() || null\<close>\<close>
  "trim_or_null description =
     (case description of
        None \<Rightarrow> None
      | Some d \<Rightarrow> if trim d = [] then None else Some (trim d))"

definition handleSave_try ::
    "database \<Rightarrow> uuid \<Rightarrow> uuid \<Rightarrow> timestamptz \<Rightarrow> SubjectManagement_state
      \<Rightarrow> EditingSubject \<Rightarrow> js_error + database \<times> SubjectManagement_state" where
  \<comment> \<open>the \<open>try\<close> block; \<open>gen_random_uuid\<close> and \<open>now\<close> are the defaults the store would
      give a new row\<close>
  "handleSave_try db uid gen_random_uuid now st editingSubject =
     (case (case editing_id editingSubject of
              None \<Rightarrow> None
            | Some i \<Rightarrow> if i = [] then None else Some i) of
        Some i \<Rightarrow>
          (case update_subjects db uid (trim (editing_name editingSubject))
                  (trim_or_null (editing_description editingSubject)) i of
             Inl error \<Rightarrow> Inl (PostgrestError error)
           | Inr db' \<Rightarrow>
               Inr (db',
                    st\<lparr>sm_subjects :=
                         map (\<lambda>subject.
                                if subjects_id subject = i
                                then subject\<lparr>subjects_name := editing_name editingSubject,
                                       subjects_description := editing_description editingSubject\<rparr>
                                else subject) (sm_subjects st),
                       sm_editingSubject := None,
                       sm_isAdding := False\<rparr>))
      | None \<Rightarrow>
          (case insert_subjects_select_single db uid
                  \<lparr>subjects_id = gen_random_uuid,
                   subjects_name = trim (editing_name editingSubject),
                   subjects_description = trim_or_null (editing_description editingSubject),
                   subjects_created_at = now\<rparr> of
             Inl error \<Rightarrow> Inl (PostgrestError error)
           | Inr (db', data) \<Rightarrow>
               Inr (db',
                    st\<lparr>sm_subjects := sm_subjects st @ [data],
                       sm_editingSubject := None,
                       sm_isAdding := False\<rparr>)))"

definition handleSave ::
    "database \<Rightarrow> uuid \<Rightarrow> uuid \<Rightarrow> timestamptz \<Rightarrow> SubjectManagement_state
      \<Rightarrow> SubjectManagement_state promise" where
  "handleSave db uid gen_random_uuid now st =
     (case sm_editingSubject st of
        None \<Rightarrow> Inr (db, st, [])
      | Some editingSubject \<Rightarrow>
          if trim (editing_name editingSubject) = [] then Inr (db, st, [])
          else
            (case handleSave_try db uid gen_random_uuid now st editingSubject of
               Inl error \<Rightarrow> Inr (db, st, [console_error ''Error saving subject:'' error])
             | Inr (db', st') \<Rightarrow> Inr (db', st', [])))"

definition handleDelete ::
    "database \<Rightarrow> uuid \<Rightarrow> bool \<Rightarrow> uuid \<Rightarrow> SubjectManagement_state
      \<Rightarrow> SubjectManagement_state promise" where
  \<comment> \<open>\<open>confirm\<close> is the answer to the dialog\<close>
  "handleDelete db uid confirm subjectId st =
     (if \<not> confirm then Inr (db, st, [])
      else
        (case delete_subjects db uid subjectId of
           Inl error \<Rightarrow>
             Inr (db, st, [console_error ''Error deleting subject:'' (PostgrestError error)])
         | Inr db' \<Rightarrow>
             Inr (db',
                  st\<lparr>sm_subjects :=
                       filter (\<lambda>subject. subjects_id subject \<noteq> subjectId) (sm_subjects st)\<rparr>,
                  [])))"

subsection \<open>ContentManagement\<close>

record File =
  file_name :: string

record NewNote =
  newNote_title :: string
  newNote_file :: "File option"

record NewVideo =
  newVideo_title :: string
  newVideo_youtube_url :: string

record ContentManagement_state =
  cm_subjects :: "subjects_row list"
  cm_notes :: "(notes_row \<times> string option) list"
  cm_videos :: "(videos_row \<times> string option) list"
  cm_loading :: bool
  cm_selectedSubject :: string
  cm_showAddNote :: bool
  cm_showAddVideo :: bool
  cm_uploadingFile :: bool
  cm_newNote :: NewNote
  cm_newVideo :: NewVideo

text \<open>
  The file storage is a collaborator: \<open>upload\<close> gives the error of an upload to a
  path, if any, and \<open>getPublicUrl\<close> the address of a path.
\<close>

record storage =
  upload :: "string \<Rightarrow> string option"
  getPublicUrl :: "string \<Rightarrow> string"

definition fetchData ::
    "database \<Rightarrow> uuid \<Rightarrow> ContentManagement_state \<Rightarrow> ContentManagement_state" where
  "fetchData db uid st =
     st\<lparr>cm_subjects :=
          (case select_subjects db uid of Inl error \<Rightarrow> cm_subjects st | Inr rows \<Rightarrow> rows),
        cm_notes :=
          (case select_notes db uid of Inl error \<Rightarrow> cm_notes st | Inr rows \<Rightarrow> rows),
        cm_videos :=
          (case select_videos db uid of Inl error \<Rightarrow> cm_videos st | Inr rows \<Rightarrow> rows),
        cm_loading := False\<rparr>"

definition split_pop :: "string \<Rightarrow> string" where
  \<comment> \<open>\<open>file.name.split('.').pop()\<close>: what follows the last dot, the whole name when
      there is none\<close>
  "split_pop name = rev (takeWhile (\<lambda>c. c \<noteq> CHR ''.'') (rev name))"

definition handleFileUpload :: "storage \<Rightarrow> string \<Rightarrow> File \<Rightarrow> js_error + string" where
  \<comment> \<open>\<open>random\<close> is \<open>Math.random().toString(36).substring(2)\<close>\<close>
  "handleFileUpload pdfs random file =
     (let fileExt = split_pop (file_name file);
          fileName = random @ ''.'' @ fileExt;
          filePath = ''pdfs/'' @ fileName
      in case upload pdfs filePath of
           Some uploadError \<Rightarrow> Inl (StorageError uploadError)
         | None \<Rightarrow> Inr (getPublicUrl pdfs filePath))"

definition handleAddNote_try ::
    "database \<Rightarrow> uuid \<Rightarrow> storage \<Rightarrow> string \<Rightarrow> uuid \<Rightarrow> timestamptz
      \<Rightarrow> ContentManagement_state \<Rightarrow> File
      \<Rightarrow> js_error + database \<times> ContentManagement_state" where
  "handleAddNote_try db uid pdfs random gen_random_uuid now st file =
     (case handleFileUpload pdfs random file of
        Inl error \<Rightarrow> Inl error
      | Inr pdfUrl \<Rightarrow>
          (case insert_notes db uid
                  \<lparr>notes_id = gen_random_uuid,
                   notes_subject_id = cm_selectedSubject st,
                   notes_title = newNote_title (cm_newNote st),
                   notes_pdf_url = pdfUrl,
                   notes_created_at = now\<rparr> of
             Inl error \<Rightarrow> Inl (PostgrestError error)
           | Inr db' \<Rightarrow>
               Inr (db',
                    fetchData db' uid
                      (st\<lparr>cm_newNote := \<lparr>newNote_title = [], newNote_file = None\<rparr>,
                          cm_showAddNote := False\<rparr>))))"

definition handleAddNote ::
    "database \<Rightarrow> uuid \<Rightarrow> storage \<Rightarrow> string \<Rightarrow> uuid \<Rightarrow> timestamptz
      \<Rightarrow> ContentManagement_state \<Rightarrow> ContentManagement_state promise" where
  "handleAddNote db uid pdfs random gen_random_uuid now st =
     (case newNote_file (cm_newNote st) of
        None \<Rightarrow> Inr (db, st, [])
      | Some file \<Rightarrow>
          if newNote_title (cm_newNote st) = [] \<or> cm_selectedSubject st = []
          then Inr (db, st, [])
          else
            (case handleAddNote_try db uid pdfs random gen_random_uuid now
                    (st\<lparr>cm_uploadingFile := True\<rparr>) file of
               Inl error \<Rightarrow>
                 Inr (db, st\<lparr>cm_uploadingFile := False\<rparr>,
                      [console_error ''Error adding note:'' error])
             | Inr (db', st') \<Rightarrow> Inr (db', st'\<lparr>cm_uploadingFile := False\<rparr>, [])))"

section \<open>The video id as the specification words it\<close>

text \<open>
  "The substring that follows the first occurrence of \<open>youtube.com/watch?v=\<close> or
  \<open>youtu.be/\<close> up to (but excluding) the first \<open>&\<close>, newline, \<open>?\<close> or \<open>#\<close>, and null
  for every string containing neither marker."
\<close>

fun after_first_marker :: "string \<Rightarrow> string option" where
  "after_first_marker [] = None"
| "after_first_marker (c # cs) =
     (if prefix ''youtube.com/watch?v='' (c # cs)
      then Some (drop (length ''youtube.com/watch?v='') (c # cs))
      else if prefix ''youtu.be/'' (c # cs)
      then Some (drop (length ''youtu.be/'') (c # cs))
      else after_first_marker cs)"

definition getYouTubeVideoId_spec :: "string \<Rightarrow> string option" where
  "getYouTubeVideoId_spec url =
     map_option (takeWhile (\<lambda>c. c \<notin> {CHR ''&'', CHR 0x0A, CHR ''?'', CHR ''#''}))
       (after_first_marker url)"

text \<open>
  The amended wording: \<open>s\<close> begins with a marker, and \<open>v\<close> is the run of characters
  other than \<open>&\<close>, newline, \<open>?\<close> and \<open>#\<close> that follows the marker, which is not empty.
\<close>

definition id_after_marker :: "string \<Rightarrow> string \<Rightarrow> bool" where
  "id_after_marker s v \<longleftrightarrow>
     v \<noteq> [] \<and>
     (prefix ''youtube.com/watch?v='' s \<and>
        v = takeWhile (\<lambda>c. c \<notin> {CHR ''&'', CHR 0x0A, CHR ''?'', CHR ''#''})
              (drop (length ''youtube.com/watch?v='') s) \<or>
      prefix ''youtu.be/'' s \<and>
        v = takeWhile (\<lambda>c. c \<notin> {CHR ''&'', CHR 0x0A, CHR ''?'', CHR ''#''})
              (drop (length ''youtu.be/'') s))"

section \<open>A database to evaluate on\<close>

text \<open>
  The scenario of the sample data: an administrator (whose own \<open>access\<close> flag is
  false), a newly provisioned account, the subject Mathematics with one note and one
  video; a second subject to insert; and the same database with the newcomer's
  \<open>access\<close> set to true.
\<close>

definition administrator :: users_row where
  "administrator =
     \<lparr>users_id = ''u1'', users_email = ''admin@example.com'', users_access = Some False,
      users_is_admin = Some True, users_created_at = 1\<rparr>"

definition newcomer :: users_row where
  "newcomer =
     \<lparr>users_id = ''u2'', users_email = ''new@example.com'', users_access = Some False,
      users_is_admin = Some False, users_created_at = 2\<rparr>"

definition Mathematics :: subjects_row where
  "Mathematics =
     \<lparr>subjects_id = ''s1'', subjects_name = ''Mathematics'',
      subjects_description = Some ''Advanced mathematical concepts and problem solving'',
      subjects_created_at = 3\<rparr>"

definition Calculus_Fundamentals :: notes_row where
  "Calculus_Fundamentals =
     \<lparr>notes_id = ''n1'', notes_subject_id = ''s1'', notes_title = ''Calculus Fundamentals'',
      notes_pdf_url = ''https://example.com/calculus.pdf'', notes_created_at = 4\<rparr>"

definition Calculus_Explained :: videos_row where
  "Calculus_Explained =
     \<lparr>videos_id = ''v1'', videos_subject_id = ''s1'', videos_title = ''Calculus Explained'',
      videos_youtube_url = ''https://www.youtube.com/watch?v=WUvTyaaNkzM'',
      videos_created_at = 5\<rparr>"

definition Physics :: subjects_row where
  "Physics =
     \<lparr>subjects_id = ''s2'', subjects_name = ''Physics'',
      subjects_description = Some ''Fundamental principles of physics and their applications'',
      subjects_created_at = 6\<rparr>"

definition sample_db :: database where
  "sample_db =
     \<lparr>auth_users = [\<lparr>auth_id = ''u1'', auth_email = ''admin@example.com''\<rparr>,
                    \<lparr>auth_id = ''u2'', auth_email = ''new@example.com''\<rparr>],
      public_users = [administrator, newcomer],
      public_subjects = [Mathematics],
      public_notes = [Calculus_Fundamentals],
      public_videos = [Calculus_Explained]\<rparr>"

definition approved_db :: database where
  "approved_db =
     sample_db\<lparr>public_users := [administrator, newcomer\<lparr>users_access := Some True\<rparr>]\<rparr>"

text \<open>
  The same database after the newcomer's address was changed in \<open>auth.users\<close> only:
  \<open>public.users\<close> still holds the old address.
\<close>

definition stale_email_db :: database where
  "stale_email_db =
     sample_db\<lparr>auth_users := [\<lparr>auth_id = ''u1'', auth_email = ''admin@example.com''\<rparr>,
                    \<lparr>auth_id = ''u2'', auth_email = ''renamed@example.com''\<rparr>]\<rparr>"

text \<open>
  States of the two admin forms: a subject form with a blank name, one with a name, one
  editing Mathematics; a note form with no file chosen and one with a file; a storage
  bucket that accepts every upload.
\<close>

definition adding_blank :: SubjectManagement_state where
  "adding_blank =
     \<lparr>sm_subjects = [Mathematics], sm_loading = False,
      sm_editingSubject =
        Some \<lparr>editing_id = None, editing_name = ''  '', editing_description = Some []\<rparr>,
      sm_isAdding = True\<rparr>"

definition adding_Physics :: SubjectManagement_state where
  "adding_Physics =
     \<lparr>sm_subjects = [Mathematics], sm_loading = False,
      sm_editingSubject =
        Some \<lparr>editing_id = None, editing_name = ''Physics'', editing_description = Some []\<rparr>,
      sm_isAdding = True\<rparr>"

definition renaming_Mathematics :: SubjectManagement_state where
  "renaming_Mathematics =
     \<lparr>sm_subjects = [Mathematics], sm_loading = False,
      sm_editingSubject =
        Some \<lparr>editing_id = Some ''s1'', editing_name = ''Maths'', editing_description = None\<rparr>,
      sm_isAdding = False\<rparr>"

definition note_without_file :: ContentManagement_state where
  "note_without_file =
     \<lparr>cm_subjects = [Mathematics], cm_notes = [], cm_videos = [], cm_loading = False,
      cm_selectedSubject = ''s1'', cm_showAddNote = True, cm_showAddVideo = False,
      cm_uploadingFile = False,
      cm_newNote = \<lparr>newNote_title = ''Linear Algebra Basics'', newNote_file = None\<rparr>,
      cm_newVideo = \<lparr>newVideo_title = [], newVideo_youtube_url = []\<rparr>\<rparr>"

definition pdfs_bucket :: storage where
  "pdfs_bucket =
     \<lparr>upload = (\<lambda>path. None),
      getPublicUrl = (\<lambda>path. ''https://storage.example.com/'' @ path)\<rparr>"

definition note_with_file :: ContentManagement_state where
  "note_with_file =
     note_without_file
       \<lparr>cm_newNote := \<lparr>newNote_title = ''Linear Algebra Basics'',
                       newNote_file = Some \<lparr>file_name = ''linear.algebra.pdf''\<rparr>\<rparr>\<rparr>"

text \<open>
  The list of the user management panel.
\<close>

definition user_list :: UserManagement_state where
  "user_list = \<lparr>um_users = [administrator, newcomer], um_loading = False\<rparr>"

lemmas sample_defs =
  sample_db_def administrator_def newcomer_def Mathematics_def Calculus_Fundamentals_def
  Calculus_Explained_def

lemmas policy_defs =
  Admins_can_update_all_users_def Admins_can_manage_subjects_def
  Users_with_access_can_read_notes_def Admins_can_manage_notes_def
  Users_with_access_can_read_videos_def Admins_can_manage_videos_def

section \<open>The policies recurse\<close>

text \<open>
  "Admins can read all users" is a policy of \<open>users\<close> whose sub-select reads \<open>users\<close>.
  So a sub-select on \<open>users\<close> never gets through the expansion of the policies of
  \<open>users\<close>, whoever asks and whatever the table holds. Every other table has a policy
  with such a sub-select for each command, and every request of a session fails.
\<close>

lemma exists_admin_recursion [simp]: "exists_admin activeRIRs db uid = Inl infinite_recursion"
  by (cases "rel_users \<in> set activeRIRs") simp_all

lemma from_users_recursion [simp]: "from_users activeRIRs db uid = Inl infinite_recursion"
  by (cases "rel_users \<in> set activeRIRs") simp_all

lemma exists_access_recursion [simp]: "exists_access activeRIRs db uid = Inl infinite_recursion"
  by (simp add: exists_access_def)

lemma subjects_policy_recursion [simp]: "subjects_policy db uid cmd = Inl infinite_recursion"
  by (cases cmd) (simp_all add: policy_defs permissive_def)

lemma notes_policy_recursion [simp]: "notes_policy db uid cmd = Inl infinite_recursion"
  by (cases cmd) (simp_all add: policy_defs permissive_def)

lemma videos_policy_recursion [simp]: "videos_policy db uid cmd = Inl infinite_recursion"
  by (cases cmd) (simp_all add: policy_defs permissive_def)

lemma select_recursion:
  "select_users db uid = Inl infinite_recursion"
  "select_subjects db uid = Inl infinite_recursion"
  "select_notes db uid = Inl infinite_recursion"
  "select_videos db uid = Inl infinite_recursion"
  by (simp_all add: select_users_def select_subjects_def select_notes_def select_videos_def)

lemma write_recursion:
  "insert_subjects db uid s = Inl infinite_recursion"
  "insert_subjects_select_single db uid s = Inl infinite_recursion"
  "insert_notes db uid n = Inl infinite_recursion"
  "insert_videos db uid v = Inl infinite_recursion"
  "update_users db uid body i = Inl infinite_recursion"
  "update_subjects db uid name description i = Inl infinite_recursion"
  "delete_subjects db uid i = Inl infinite_recursion"
  "delete_notes db uid i = Inl infinite_recursion"
  "delete_videos db uid i = Inl infinite_recursion"
  by (simp_all add: insert_subjects_def insert_subjects_select_single_def insert_notes_def
      insert_videos_def update_users_def users_policy_UPDATE_def update_subjects_def
      delete_subjects_def delete_notes_def delete_videos_def reading_def policy_defs)

lemma sample_db_keys: "primary_keys sample_db" "foreign_keys sample_db"
  by (simp_all add: primary_keys_def foreign_keys_def sample_defs)

section \<open>Reading subjects\<close>

text \<open>
  C8 fails on the code. "Authenticated users can read subjects" is \<open>USING (true)\<close>, but a
  \<open>SELECT\<close> on \<open>subjects\<close> also carries the \<open>FOR ALL\<close> policy "Admins can manage
  subjects", whose sub-select on \<open>users\<close> recurses: the newcomer's read of the subject
  list fails and returns no row, though the table holds Mathematics.
\<close>

theorem subjects_not_read:
  "newcomer \<in> set (public_users sample_db) \<and>
   public_subjects sample_db = [Mathematics] \<and>
   select_subjects sample_db (users_id newcomer) = Inl infinite_recursion \<and>
   data_or_empty (select_subjects sample_db (users_id newcomer)) = []"
  by (simp add: select_recursion data_or_empty_def sample_db_def)

section \<open>Reading notes and videos\<close>

text \<open>
  C2. For every account whose \<open>access\<close> flag is not true, whatever its other flags and
  whatever subjects there are, a read of \<open>notes\<close> and a read of \<open>videos\<close> return no
  row: the response carries an error and no data.
\<close>

theorem no_access_reads_nothing:
  assumes "A \<in> set (public_users db)" and "users_access A \<noteq> Some True"
  shows "data_or_empty (select_notes db (users_id A)) = [] \<and>
         data_or_empty (select_videos db (users_id A)) = []"
  by (simp add: select_recursion data_or_empty_def)

theorem no_access_reads_nothing_witness:
  "newcomer \<in> set (public_users sample_db) \<and> users_access newcomer \<noteq> Some True \<and>
   administrator \<in> set (public_users sample_db) \<and> users_access administrator \<noteq> Some True \<and>
   users_is_admin administrator = Some True \<and>
   public_notes sample_db = [Calculus_Fundamentals] \<and>
   data_or_empty (select_notes sample_db (users_id newcomer)) = [] \<and>
   data_or_empty (select_videos sample_db (users_id newcomer)) = [] \<and>
   data_or_empty (select_notes sample_db (users_id administrator)) = [] \<and>
   data_or_empty (select_videos sample_db (users_id administrator)) = []"
  using no_access_reads_nothing [of newcomer sample_db]
    no_access_reads_nothing [of administrator sample_db]
  by (simp add: sample_defs)

section \<open>Writing subjects, notes and videos\<close>

text \<open>
  C3 fails on the code in its second half. The writes of an account that is not an
  administrator are refused, as the claim says (\<open>write_recursion\<close> holds of every
  session). But so are those of an administrator: the sub-select of the \<open>FOR ALL\<close>
  policies recurses for every session, and the administrator's insert, update and
  delete fail with the same error and change nothing.
\<close>

theorem administrator_writes_refused:
  "administrator \<in> set (public_users sample_db) \<and>
   users_is_admin administrator = Some True \<and>
   Physics \<notin> set (public_subjects sample_db) \<and>
   insert_subjects sample_db (users_id administrator) Physics = Inl infinite_recursion \<and>
   update_subjects sample_db (users_id administrator) ''Maths'' None (subjects_id Mathematics) =
     Inl infinite_recursion \<and>
   delete_subjects sample_db (users_id administrator) (subjects_id Mathematics) =
     Inl infinite_recursion \<and>
   insert_notes sample_db (users_id administrator)
       (Calculus_Fundamentals\<lparr>notes_id := ''n2''\<rparr>) = Inl infinite_recursion \<and>
   delete_notes sample_db (users_id administrator) (notes_id Calculus_Fundamentals) =
     Inl infinite_recursion \<and>
   insert_videos sample_db (users_id administrator)
       (Calculus_Explained\<lparr>videos_id := ''v2''\<rparr>) = Inl infinite_recursion \<and>
   delete_videos sample_db (users_id administrator) (videos_id Calculus_Explained) =
     Inl infinite_recursion"
  by (simp add: write_recursion sample_defs Physics_def)

section \<open>Account rows\<close>

text \<open>
  C1 fails on the code in its second part. No session changes a flag of any account,
  its own included: every \<open>UPDATE\<close> on \<open>users\<close> is refused (\<open>write_recursion\<close>). But
  an account does not read its own row either: "Users can read own data" admits the
  row, and the \<open>SELECT\<close> fails all the same on the sub-select of "Admins can read all
  users".
\<close>

theorem own_row_not_read:
  "newcomer \<in> set (public_users sample_db) \<and>
   Users_can_read_own_data (users_id newcomer) newcomer \<and>
   select_users sample_db (users_id newcomer) = Inl infinite_recursion \<and>
   data_or_empty (select_users sample_db (users_id newcomer)) = []"
  by (simp add: select_recursion data_or_empty_def Users_can_read_own_data_def sample_db_def)

section \<open>Granting access\<close>

text \<open>
  C6 fails on the code. The administrator's \<open>toggleUserAccess\<close> on the newcomer is
  refused by the store and only logged. And where the newcomer's row has \<open>access\<close> true
  (set past the policies, by the owner of the table), the newcomer's next query for notes
  and for videos fails and returns no row, though the tables hold a note and a video.
\<close>

theorem granted_account_reads_nothing:
  "users_is_admin administrator = Some True \<and>
   toggleUserAccess sample_db (users_id administrator) (users_id newcomer) False user_list =
     Inr (sample_db, user_list,
          [console_error ''Error updating user access:'' (PostgrestError infinite_recursion)]) \<and>
   newcomer\<lparr>users_access := Some True\<rparr> \<in> set (public_users approved_db) \<and>
   public_notes approved_db = [Calculus_Fundamentals] \<and>
   public_videos approved_db = [Calculus_Explained] \<and>
   select_notes approved_db (users_id newcomer) = Inl infinite_recursion \<and>
   select_videos approved_db (users_id newcomer) = Inl infinite_recursion \<and>
   data_or_empty (select_notes approved_db (users_id newcomer)) = []"
  by (simp add: select_recursion write_recursion toggleUserAccess_def data_or_empty_def
      approved_db_def sample_db_def administrator_def)

section \<open>Deleting a subject\<close>

text \<open>
  C5. With the foreign keys holding before a \<open>DELETE\<close> on \<open>subjects\<close>, they hold after
  it: no note or video references a subject that is not there. Every subject the
  statement reached is gone, and so is every note and every video that referenced it.
  Whatever \<open>handleDelete\<close> does, the foreign keys hold in the database it leaves.
\<close>

theorem delete_subjects_cascades:
  assumes "foreign_keys db"
  shows "foreign_keys (delete_from_subjects db reached) \<and>
         (\<forall>s \<in> set (public_subjects db). reached s \<longrightarrow>
            s \<notin> set (public_subjects (delete_from_subjects db reached)) \<and>
            subjects_id s \<notin>
              notes_subject_id ` set (public_notes (delete_from_subjects db reached)) \<and>
            subjects_id s \<notin>
              videos_subject_id ` set (public_videos (delete_from_subjects db reached))) \<and>
         (\<exists>db' st' log. handleDelete db uid confirm sid st = Inr (db', st', log) \<and>
            foreign_keys db')"
proof -
  let ?gone = "set (map subjects_id (filter reached (public_subjects db)))"
  let ?db' = "delete_from_subjects db reached"
  have S: "public_subjects ?db' = filter (\<lambda>r. \<not> reached r) (public_subjects db)"
    and N: "public_notes ?db' = filter (\<lambda>n. notes_subject_id n \<notin> ?gone) (public_notes db)"
    and V: "public_videos ?db' = filter (\<lambda>v. videos_subject_id v \<notin> ?gone) (public_videos db)"
    and U: "public_users ?db' = public_users db" "auth_users ?db' = auth_users db"
    by (simp_all add: delete_from_subjects_def Let_def)
  have keep: "i \<in> subjects_id ` set (public_subjects ?db')"
    if "i \<in> subjects_id ` set (public_subjects db)" "i \<notin> ?gone" for i
    using that unfolding S by auto
  have fk: "foreign_keys ?db'"
    using assms keep unfolding foreign_keys_def list_all_iff U N V
    by (simp add: image_iff)
  have casc: "s \<notin> set (public_subjects ?db') \<and>
              subjects_id s \<notin> notes_subject_id ` set (public_notes ?db') \<and>
              subjects_id s \<notin> videos_subject_id ` set (public_videos ?db')"
    if "s \<in> set (public_subjects db)" "reached s" for s
  proof -
    have g: "subjects_id s \<in> ?gone" using that by simp
    have 1: "s \<notin> set (public_subjects ?db')"
      using that unfolding S by simp
    have 2: "notes_subject_id n \<noteq> subjects_id s" if "n \<in> set (public_notes ?db')" for n
    proof
      assume "notes_subject_id n = subjects_id s"
      with g have "notes_subject_id n \<in> ?gone" by simp
      with that show False unfolding N by simp
    qed
    have 3: "videos_subject_id v \<noteq> subjects_id s" if "v \<in> set (public_videos ?db')" for v
    proof
      assume "videos_subject_id v = subjects_id s"
      with g have "videos_subject_id v \<in> ?gone" by simp
      with that show False unfolding V by simp
    qed
    from 1 2 3 show ?thesis by (metis imageE)
  qed
  have "handleDelete db uid confirm sid st = Inr (db, st, []) \<or>
        handleDelete db uid confirm sid st =
          Inr (db, st, [console_error ''Error deleting subject:'' (PostgrestError infinite_recursion)])"
    by (simp add: handleDelete_def write_recursion)
  then have "\<exists>db' st' log. handleDelete db uid confirm sid st = Inr (db', st', log) \<and>
      foreign_keys db'"
    using assms by blast
  with fk casc show ?thesis by blast
qed

theorem delete_subjects_cascades_witness:
  "foreign_keys sample_db \<and>
   Mathematics \<in> set (public_subjects sample_db) \<and>
   notes_subject_id Calculus_Fundamentals = subjects_id Mathematics \<and>
   Calculus_Fundamentals \<in> set (public_notes sample_db) \<and>
   foreign_keys (delete_from_subjects sample_db (\<lambda>r. subjects_id r = ''s1'')) \<and>
   public_subjects (delete_from_subjects sample_db (\<lambda>r. subjects_id r = ''s1'')) = [] \<and>
   public_notes (delete_from_subjects sample_db (\<lambda>r. subjects_id r = ''s1'')) = [] \<and>
   public_videos (delete_from_subjects sample_db (\<lambda>r. subjects_id r = ''s1'')) = []"
  using delete_subjects_cascades [of sample_db "\<lambda>r. subjects_id r = ''s1''"]
  by (simp add: sample_defs foreign_keys_def delete_from_subjects_def)

section \<open>Provisioning accounts\<close>

text \<open>
  An authentication either leaves the \<open>users\<close> table as it is or adds the one row of
  the new identity, and it adds that row only when no row has the identity's id.
\<close>

lemma authentications_Cons:
  "authentications trig db (now # later) ident =
     authentications trig (authenticated trig db now ident) later ident"
  by (simp add: authenticated_def)

lemma insert_users_definer_users:
  "insert_users_definer db row = Inr db' \<Longrightarrow>
     public_users db' = public_users db @ [row] \<and>
     users_id row \<notin> users_id ` set (public_users db)"
  by (auto simp: insert_users_definer_def split: if_splits)

lemma authenticated_users:
  assumes "trig = handle_new_user \<or> trig = handle_new_user_logging"
  shows "public_users (authenticated trig db now ident) = public_users db \<or>
         (public_users (authenticated trig db now ident) = public_users db @ [profile now ident] \<and>
          auth_id ident \<notin> users_id ` set (public_users db))"
proof (cases "auth_id ident \<in> set (map auth_id (auth_users db))")
  case True
  then show ?thesis by (simp add: authenticated_def authenticate_def)
next
  case False
  let ?db1 = "db\<lparr>auth_users := auth_users db @ [ident]\<rparr>"
  show ?thesis
  proof (cases "insert_users_definer ?db1 (profile now ident)")
    case (Inl e)
    then show ?thesis
      using False assms
      by (auto simp: authenticated_def authenticate_def insert_auth_users_def
          handle_new_user_def handle_new_user_logging_def profile_def)
  next
    case (Inr db'')
    from insert_users_definer_users [OF Inr]
    have "public_users db'' = public_users db @ [profile now ident]"
      "auth_id ident \<notin> users_id ` set (public_users db)"
      by (simp_all add: profile_def)
    moreover have "authenticated trig db now ident = db''"
      using False assms Inr
      by (auto simp: authenticated_def authenticate_def insert_auth_users_def
          handle_new_user_def handle_new_user_logging_def profile_def)
    ultimately show ?thesis by simp
  qed
qed

lemma authenticated_distinct:
  assumes "trig = handle_new_user \<or> trig = handle_new_user_logging"
    and "distinct (map users_id (public_users db))"
  shows "distinct (map users_id (public_users (authenticated trig db now ident)))"
  using authenticated_users [OF assms(1), of db now ident] assms(2)
  by (auto simp: profile_def)

lemma authenticated_keeps_account:
  assumes "trig = handle_new_user \<or> trig = handle_new_user_logging"
    and "accounts_of db (auth_id ident) = [r]"
  shows "accounts_of (authenticated trig db now ident) (auth_id ident) = [r]"
proof -
  have "r \<in> set (filter (\<lambda>r. users_id r = auth_id ident) (public_users db))"
    using assms(2) by (simp add: accounts_of_def)
  then have "auth_id ident \<in> users_id ` set (public_users db)" by force
  then have "public_users (authenticated trig db now ident) = public_users db"
    using authenticated_users [OF assms(1), of db now ident] by blast
  then show ?thesis using assms(2) by (simp add: accounts_of_def)
qed

lemma authentications_distinct:
  assumes "trig = handle_new_user \<or> trig = handle_new_user_logging"
  shows "distinct (map users_id (public_users db)) \<Longrightarrow>
         distinct (map users_id (public_users (authentications trig db nows ident)))"
proof (induction nows arbitrary: db)
  case Nil
  then show ?case by simp
next
  case (Cons now later)
  show ?case
    unfolding authentications_Cons
    by (rule Cons.IH) (rule authenticated_distinct [OF assms Cons.prems])
qed

lemma authentications_keep_account:
  assumes "trig = handle_new_user \<or> trig = handle_new_user_logging"
  shows "accounts_of db (auth_id ident) = [r] \<Longrightarrow>
         accounts_of (authentications trig db nows ident) (auth_id ident) = [r]"
proof (induction nows arbitrary: db)
  case Nil
  then show ?case by simp
next
  case (Cons now later)
  show ?case
    unfolding authentications_Cons
    by (rule Cons.IH) (rule authenticated_keeps_account [OF assms Cons.prems])
qed

lemma distinct_accounts_of:
  "distinct (map users_id (public_users db)) \<Longrightarrow> length (accounts_of db i) \<le> 1"
proof -
  have "distinct (map f xs) \<Longrightarrow> length (filter (\<lambda>r. f r = i) xs) \<le> 1" for f :: "users_row \<Rightarrow> uuid" and xs
    by (induction xs) (auto simp: filter_empty_conv image_iff)
  then show "distinct (map users_id (public_users db)) \<Longrightarrow> length (accounts_of db i) \<le> 1"
    unfolding accounts_of_def by blast
qed

lemma first_authentication:
  assumes "trig = handle_new_user \<or> trig = handle_new_user_logging"
    and "foreign_keys db"
    and "auth_id ident \<notin> set (map auth_id (auth_users db))"
    and "auth_email ident \<notin> set (map users_email (public_users db))"
  shows "authenticate trig db now ident =
           Inr (db\<lparr>auth_users := auth_users db @ [ident],
                    public_users := public_users db @ [profile now ident]\<rparr>, [])"
    and "accounts_of (authenticated trig db now ident) (auth_id ident) = [profile now ident]"
proof -
  have new: "auth_id ident \<notin> users_id ` set (public_users db)"
    using assms(2,3) unfolding foreign_keys_def list_all_iff by auto
  let ?db1 = "db\<lparr>auth_users := auth_users db @ [ident]\<rparr>"
  have ins: "insert_users_definer ?db1 (profile now ident) =
               Inr (?db1\<lparr>public_users := public_users db @ [profile now ident]\<rparr>)"
    using new assms(4) by (simp add: insert_users_definer_def profile_def image_iff)
  show a: "authenticate trig db now ident =
           Inr (db\<lparr>auth_users := auth_users db @ [ident],
                    public_users := public_users db @ [profile now ident]\<rparr>, [])"
    using assms(1,3) ins
    by (auto simp: authenticate_def insert_auth_users_def handle_new_user_def
        handle_new_user_logging_def profile_def)
  have "users_id r \<noteq> auth_id ident" if "r \<in> set (public_users db)" for r
    using new that by (metis imageI)
  then have "filter (\<lambda>r. users_id r = auth_id ident) (public_users db) = []"
    by (simp add: filter_empty_conv)
  then show "accounts_of (authenticated trig db now ident) (auth_id ident) = [profile now ident]"
    by (simp add: authenticated_def a accounts_of_def profile_def)
qed

text \<open>
  When the address of the identity is already the \<open>email\<close> of an account, the insert of
  the trigger function fails on the unique constraint, and no authentication changes
  the \<open>users\<close> table.
\<close>

lemma insert_users_definer_taken:
  assumes "users_email row \<in> set (map users_email (public_users db))"
  shows "insert_users_definer db row = Inl unique_violation"
  using assms by (simp add: insert_users_definer_def)

lemma authenticated_users_taken:
  assumes "trig = handle_new_user \<or> trig = handle_new_user_logging"
    and "auth_email ident \<in> set (map users_email (public_users db))"
  shows "public_users (authenticated trig db now ident) = public_users db"
proof (cases "auth_id ident \<in> set (map auth_id (auth_users db))")
  case True
  then show ?thesis by (simp add: authenticated_def authenticate_def)
next
  case False
  have "insert_users_definer (db\<lparr>auth_users := auth_users db @ [ident]\<rparr>) (profile now ident) =
          Inl unique_violation"
    by (rule insert_users_definer_taken) (use assms(2) in \<open>simp add: profile_def\<close>)
  then show ?thesis
    using False assms(1)
    by (auto simp: authenticated_def authenticate_def insert_auth_users_def
        handle_new_user_def handle_new_user_logging_def profile_def)
qed

lemma authentications_users_taken:
  assumes "trig = handle_new_user \<or> trig = handle_new_user_logging"
  shows "auth_email ident \<in> set (map users_email (public_users db)) \<Longrightarrow>
         public_users (authentications trig db nows ident) = public_users db"
proof (induction nows arbitrary: db)
  case Nil
  then show ?case by simp
next
  case (Cons now later)
  have u: "public_users (authenticated trig db now ident) = public_users db"
    by (rule authenticated_users_taken [OF assms Cons.prems])
  have "public_users (authentications trig (authenticated trig db now ident) later ident) =
          public_users (authenticated trig db now ident)"
    by (rule Cons.IH) (use Cons.prems in \<open>simp add: u\<close>)
  then show ?case
    unfolding authentications_Cons by (simp add: u)
qed

lemma first_authentication_taken:
  assumes "foreign_keys db"
    and "auth_id ident \<notin> set (map auth_id (auth_users db))"
    and "auth_email ident \<in> set (map users_email (public_users db))"
  shows "authenticate handle_new_user_logging db now ident =
           Inr (db\<lparr>auth_users := auth_users db @ [ident]\<rparr>, [unique_violation])"
    and "authenticate handle_new_user db now ident = Inl unique_violation"
    and "trig = handle_new_user \<or> trig = handle_new_user_logging \<Longrightarrow>
           accounts_of (authentications trig db nows ident) (auth_id ident) = []"
proof -
  have ins: "insert_users_definer (db\<lparr>auth_users := auth_users db @ [ident]\<rparr>)
               (profile now ident) = Inl unique_violation"
    by (rule insert_users_definer_taken) (use assms(3) in \<open>simp add: profile_def\<close>)
  show "authenticate handle_new_user_logging db now ident =
           Inr (db\<lparr>auth_users := auth_users db @ [ident]\<rparr>, [unique_violation])"
    using assms(2) ins
    by (simp add: authenticate_def insert_auth_users_def handle_new_user_logging_def profile_def)
  show "authenticate handle_new_user db now ident = Inl unique_violation"
    using assms(2) ins
    by (simp add: authenticate_def insert_auth_users_def handle_new_user_def profile_def)
  have new: "users_id r \<noteq> auth_id ident" if "r \<in> set (public_users db)" for r
  proof -
    have "users_id r \<in> set (map auth_id (auth_users db))"
      using assms(1) that unfolding foreign_keys_def list_all_iff by blast
    with assms(2) show ?thesis by metis
  qed
  then have none: "filter (\<lambda>r. users_id r = auth_id ident) (public_users db) = []"
    by (simp add: filter_empty_conv)
  show "accounts_of (authentications trig db nows ident) (auth_id ident) = []"
    if "trig = handle_new_user \<or> trig = handle_new_user_logging"
    using authentications_users_taken [OF that assms(3), of nows] none
    by (simp add: accounts_of_def)
qed

text \<open>
  C4, as the claim states it, fails for the trigger function that catches the error of
  its insert: when the address of a new identity is already the \<open>email\<close> of another
  account, the first authentication succeeds, the unique violation goes to the log, and
  the identity has no account row, after this and after every later authentication.
\<close>

theorem first_authentication_without_account:
  "primary_keys stale_email_db \<and> foreign_keys stale_email_db \<and>
   ''u3'' \<notin> set (map auth_id (auth_users stale_email_db)) \<and>
   authenticate handle_new_user_logging stale_email_db 6
       \<lparr>auth_id = ''u3'', auth_email = ''new@example.com''\<rparr> =
     Inr (stale_email_db\<lparr>auth_users := auth_users stale_email_db @
            [\<lparr>auth_id = ''u3'', auth_email = ''new@example.com''\<rparr>]\<rparr>, [unique_violation]) \<and>
   accounts_of (authentications handle_new_user_logging stale_email_db [6, 7, 8]
       \<lparr>auth_id = ''u3'', auth_email = ''new@example.com''\<rparr>) ''u3'' = []"
  by (simp add: stale_email_db_def sample_defs primary_keys_def foreign_keys_def
      authenticate_def insert_auth_users_def handle_new_user_logging_def
      insert_users_definer_def accounts_of_def)

text \<open>
  C4, amended. Under either declaration of the trigger function there is at most one
  account row for an identity after any number of authentications. When the identity is
  new and no account has its address, the first authentication succeeds and creates
  the row, with \<open>access\<close> and \<open>is_admin\<close> false, and that row is the one account of the
  identity after every later authentication. When the identity is new and an account
  has its address, the insert of the trigger function fails: the declaration that
  catches the error logs it and the authentication succeeds, the other fails the
  authentication, and under either the identity has no account row, after this and
  after any number of authentications.
\<close>

theorem one_account_per_identity:
  assumes "trig = handle_new_user \<or> trig = handle_new_user_logging"
    and "primary_keys db" and "foreign_keys db"
  shows "length (accounts_of (authentications trig db nows ident) (auth_id ident)) \<le> 1 \<and>
         (auth_id ident \<notin> set (map auth_id (auth_users db)) \<and>
          auth_email ident \<notin> set (map users_email (public_users db)) \<longrightarrow>
            authenticate trig db now ident =
              Inr (db\<lparr>auth_users := auth_users db @ [ident],
                       public_users := public_users db @
                         [\<lparr>users_id = auth_id ident, users_email = auth_email ident,
                           users_access = Some False, users_is_admin = Some False,
                           users_created_at = now\<rparr>]\<rparr>, []) \<and>
            accounts_of (authentications trig db (now # later) ident) (auth_id ident) =
              [\<lparr>users_id = auth_id ident, users_email = auth_email ident,
                users_access = Some False, users_is_admin = Some False,
                users_created_at = now\<rparr>]) \<and>
         (auth_id ident \<notin> set (map auth_id (auth_users db)) \<and>
          auth_email ident \<in> set (map users_email (public_users db)) \<longrightarrow>
            authenticate handle_new_user_logging db now ident =
              Inr (db\<lparr>auth_users := auth_users db @ [ident]\<rparr>, [unique_violation]) \<and>
            authenticate handle_new_user db now ident = Inl unique_violation \<and>
            accounts_of (authentications trig db nows ident) (auth_id ident) = [])"
proof -
  have d: "distinct (map users_id (public_users db))"
    using assms(2) by (simp add: primary_keys_def)
  have 1: "length (accounts_of (authentications trig db nows ident) (auth_id ident)) \<le> 1"
    by (rule distinct_accounts_of) (rule authentications_distinct [OF assms(1) d])
  have 2: "authenticate trig db now ident =
             Inr (db\<lparr>auth_users := auth_users db @ [ident],
                      public_users := public_users db @ [profile now ident]\<rparr>, []) \<and>
           accounts_of (authentications trig db (now # later) ident) (auth_id ident) =
             [profile now ident]"
    if "auth_id ident \<notin> set (map auth_id (auth_users db)) \<and>
        auth_email ident \<notin> set (map users_email (public_users db))"
  proof
    from that have a: "auth_id ident \<notin> set (map auth_id (auth_users db))"
      and b: "auth_email ident \<notin> set (map users_email (public_users db))" by simp_all
    show "authenticate trig db now ident =
             Inr (db\<lparr>auth_users := auth_users db @ [ident],
                      public_users := public_users db @ [profile now ident]\<rparr>, [])"
      by (rule first_authentication(1) [OF assms(1,3) a b])
    show "accounts_of (authentications trig db (now # later) ident) (auth_id ident) =
             [profile now ident]"
      unfolding authentications_Cons
      by (rule authentications_keep_account [OF assms(1)])
        (rule first_authentication(2) [OF assms(1,3) a b])
  qed
  have 3: "authenticate handle_new_user_logging db now ident =
             Inr (db\<lparr>auth_users := auth_users db @ [ident]\<rparr>, [unique_violation]) \<and>
           authenticate handle_new_user db now ident = Inl unique_violation \<and>
           accounts_of (authentications trig db nows ident) (auth_id ident) = []"
    if "auth_id ident \<notin> set (map auth_id (auth_users db)) \<and>
        auth_email ident \<in> set (map users_email (public_users db))"
  proof -
    from that have a: "auth_id ident \<notin> set (map auth_id (auth_users db))"
      and b: "auth_email ident \<in> set (map users_email (public_users db))" by simp_all
    show ?thesis
      using first_authentication_taken(1,2) [OF assms(3) a b, of now]
        first_authentication_taken(3) [OF assms(3) a b assms(1), of nows]
      by (intro conjI)
  qed
  show ?thesis
    using 1 2 3 unfolding profile_def by blast
qed

theorem one_account_per_identity_witness:
  "primary_keys sample_db \<and> foreign_keys sample_db \<and>
   ''u3'' \<notin> set (map auth_id (auth_users sample_db)) \<and>
   ''third@example.com'' \<notin> set (map users_email (public_users sample_db)) \<and>
   accounts_of (authentications handle_new_user_logging sample_db [6, 7, 8]
       \<lparr>auth_id = ''u3'', auth_email = ''third@example.com''\<rparr>) ''u3'' =
     [\<lparr>users_id = ''u3'', users_email = ''third@example.com'', users_access = Some False,
       users_is_admin = Some False, users_created_at = 6\<rparr>] \<and>
   accounts_of (authentications handle_new_user sample_db [6, 7, 8]
       \<lparr>auth_id = ''u3'', auth_email = ''third@example.com''\<rparr>) ''u3'' =
     [\<lparr>users_id = ''u3'', users_email = ''third@example.com'', users_access = Some False,
       users_is_admin = Some False, users_created_at = 6\<rparr>] \<and>
   primary_keys stale_email_db \<and> foreign_keys stale_email_db \<and>
   ''u3'' \<notin> set (map auth_id (auth_users stale_email_db)) \<and>
   ''new@example.com'' \<in> set (map users_email (public_users stale_email_db)) \<and>
   authenticate handle_new_user stale_email_db 6
       \<lparr>auth_id = ''u3'', auth_email = ''new@example.com''\<rparr> = Inl unique_violation \<and>
   accounts_of (authentications handle_new_user stale_email_db [6, 7, 8]
       \<lparr>auth_id = ''u3'', auth_email = ''new@example.com''\<rparr>) ''u3'' = []"
proof -
  have k: "primary_keys stale_email_db" "foreign_keys stale_email_db"
    by (simp_all add: primary_keys_def foreign_keys_def stale_email_db_def sample_defs)
  have m: "''u3'' \<notin> set (map auth_id (auth_users sample_db))"
    "''third@example.com'' \<notin> set (map users_email (public_users sample_db))"
    "''u3'' \<notin> set (map auth_id (auth_users stale_email_db))"
    "''new@example.com'' \<in> set (map users_email (public_users stale_email_db))"
    by (simp_all add: stale_email_db_def sample_defs)
  note a = one_account_per_identity [of handle_new_user_logging sample_db "[]"
      "\<lparr>auth_id = ''u3'', auth_email = ''third@example.com''\<rparr>" 6 "[7, 8]"]
  note b = one_account_per_identity [of handle_new_user sample_db "[]"
      "\<lparr>auth_id = ''u3'', auth_email = ''third@example.com''\<rparr>" 6 "[7, 8]"]
  note c = one_account_per_identity [of handle_new_user stale_email_db "[6, 7, 8]"
      "\<lparr>auth_id = ''u3'', auth_email = ''new@example.com''\<rparr>" 6 "[]"]
  show ?thesis
    using a b c k m sample_db_keys by (simp del: authentications.simps)
qed

section \<open>The Dashboard's gate\<close>

text \<open>
  C9. For a user whose profile is absent or whose \<open>access\<close> is not true, the effect
  of the Dashboard sends no query and, loading being over, the Dashboard renders the
  "Access Pending" notice. The effect sends queries (the three of \<open>fetchContent\<close>) only
  when \<open>user.access\<close> is true.
\<close>

theorem dashboard_gate:
  "(user = None \<or> (\<exists>u. user = Some u \<and> users_access u \<noteq> Some True) \<longrightarrow>
      Dashboard_useEffect db uid user st = (st\<lparr>dash_loading := False\<rparr>, []) \<and>
      Dashboard_render user (fst (Dashboard_useEffect db uid user st)) = Access_Pending) \<and>
   (snd (Dashboard_useEffect db uid user st) \<noteq> [] \<longrightarrow>
      (\<exists>u. user = Some u \<and> users_access u = Some True) \<and>
      snd (Dashboard_useEffect db uid user st) = [from_subjects, from_notes, from_videos])"
  by (cases user) (simp_all add: Dashboard_useEffect_def Dashboard_render_def fetchContent_def
      user_access_def)

theorem dashboard_gate_witness:
  "users_access newcomer \<noteq> Some True \<and>
   Dashboard_render (Some newcomer) Dashboard_initial = Spinner \<and>
   Dashboard_useEffect sample_db ''u2'' (Some newcomer) Dashboard_initial =
     (Dashboard_initial\<lparr>dash_loading := False\<rparr>, []) \<and>
   Dashboard_render (Some newcomer)
     (fst (Dashboard_useEffect sample_db ''u2'' (Some newcomer) Dashboard_initial)) =
     Access_Pending \<and>
   Dashboard_render None
     (fst (Dashboard_useEffect sample_db ''u2'' None Dashboard_initial)) = Access_Pending"
proof -
  have "users_access newcomer \<noteq> Some True"
    by (simp add: newcomer_def)
  moreover have "Dashboard_render (Some newcomer) Dashboard_initial = Spinner"
    by (simp add: Dashboard_render_def Dashboard_initial_def)
  ultimately show ?thesis
    using dashboard_gate [of "Some newcomer" sample_db "''u2''" Dashboard_initial]
      dashboard_gate [of None sample_db "''u2''" Dashboard_initial]
    by auto
qed

section \<open>The video id\<close>

lemma class_eq:
  "takeWhile (\<lambda>c. c \<notin> {CHR ''&'', CHR 0x0A, CHR ''?'', CHR ''#''}) s =
   takeWhile getYouTubeVideoId_class s"
  by (simp add: getYouTubeVideoId_class_def [abs_def])

lemma after_first_marker_None:
  "after_first_marker url = None \<longleftrightarrow>
     \<not> sublist ''youtube.com/watch?v='' url \<and> \<not> sublist ''youtu.be/'' url"
proof (induction url)
  case Nil
  then show ?case by simp
next
  case (Cons c cs)
  show ?case
  proof (cases "prefix ''youtube.com/watch?v='' (c # cs) \<or> prefix ''youtu.be/'' (c # cs)")
    case True
    then show ?thesis
      using prefix_imp_sublist by (auto simp del: Cons_prefix_Cons)
  next
    case False
    then have "after_first_marker (c # cs) = after_first_marker cs"
      by (simp del: Cons_prefix_Cons)
    moreover have "sublist m (c # cs) \<longleftrightarrow> sublist m cs" if "\<not> prefix m (c # cs)" for m
      using that by (simp add: sublist_Cons_right)
    ultimately show ?thesis
      using False Cons.IH by (simp del: Cons_prefix_Cons)
  qed
qed

lemma getYouTubeVideoId_no_marker:
  "after_first_marker url = None \<Longrightarrow> getYouTubeVideoId url = None"
proof (induction url)
  case Nil
  then show ?case by (simp add: getYouTubeVideoId_at_def)
next
  case (Cons c cs)
  from Cons.prems have np: "\<not> prefix ''youtube.com/watch?v='' (c # cs)" "\<not> prefix ''youtu.be/'' (c # cs)"
    and rest: "after_first_marker cs = None"
    by (auto simp del: Cons_prefix_Cons split: if_splits)
  have "getYouTubeVideoId_at (c # cs) = None"
    using np by (simp add: getYouTubeVideoId_at_def del: Cons_prefix_Cons)
  then show ?case using Cons.IH [OF rest] by simp
qed

lemma getYouTubeVideoId_agrees:
  "getYouTubeVideoId_spec url = Some v \<Longrightarrow> v \<noteq> [] \<Longrightarrow> getYouTubeVideoId url = Some v"
proof (induction url)
  case Nil
  then show ?case by (simp add: getYouTubeVideoId_spec_def)
next
  case (Cons c cs)
  show ?case
  proof (cases "prefix ''youtube.com/watch?v='' (c # cs)")
    case True
    then have "v = takeWhile getYouTubeVideoId_class (drop (length ''youtube.com/watch?v='') (c # cs))"
      using Cons.prems(1) unfolding getYouTubeVideoId_spec_def class_eq
      by (simp del: Cons_prefix_Cons drop_Suc_Cons)
    then have "getYouTubeVideoId_at (c # cs) = Some v"
      using True Cons.prems(2)
      by (simp add: getYouTubeVideoId_at_def getYouTubeVideoId_group_def Let_def
          del: Cons_prefix_Cons drop_Suc_Cons)
    then show ?thesis by simp
  next
    case F1: False
    show ?thesis
    proof (cases "prefix ''youtu.be/'' (c # cs)")
      case True
      then have "v = takeWhile getYouTubeVideoId_class (drop (length ''youtu.be/'') (c # cs))"
        using F1 Cons.prems(1) unfolding getYouTubeVideoId_spec_def class_eq
        by (simp del: Cons_prefix_Cons drop_Suc_Cons)
      then have "getYouTubeVideoId_at (c # cs) = Some v"
        using True F1 Cons.prems(2)
        by (simp add: getYouTubeVideoId_at_def getYouTubeVideoId_group_def Let_def
            del: Cons_prefix_Cons drop_Suc_Cons)
      then show ?thesis by simp
    next
      case False
      then have "getYouTubeVideoId_spec cs = Some v"
        using F1 Cons.prems(1) unfolding getYouTubeVideoId_spec_def
        by (simp del: Cons_prefix_Cons)
      then have "getYouTubeVideoId cs = Some v"
        using Cons.IH Cons.prems(2) by simp
      moreover have "getYouTubeVideoId_at (c # cs) = None"
        using F1 False by (simp add: getYouTubeVideoId_at_def del: Cons_prefix_Cons)
      ultimately show ?thesis by simp
    qed
  qed
qed

lemma getYouTubeVideoId_at_nonempty: "getYouTubeVideoId_at s \<noteq> Some []"
  by (auto simp: getYouTubeVideoId_at_def getYouTubeVideoId_group_def Let_def
      simp del: Cons_prefix_Cons split: option.splits if_splits)

lemma getYouTubeVideoId_nonempty: "getYouTubeVideoId url \<noteq> Some []"
proof (induction url)
  case Nil
  then show ?case using getYouTubeVideoId_at_nonempty [of "[]"] by simp
next
  case (Cons c cs)
  then show ?case
    using getYouTubeVideoId_at_nonempty [of "c # cs"]
    by (cases "getYouTubeVideoId_at (c # cs)") simp_all
qed

text \<open>
  Where the match is: \<open>getYouTubeVideoId\<close> returns the id after the marker at the
  first position at which a marker is followed by a character of the group, and \<open>null\<close>
  when there is no such position.
\<close>

lemma markers_exclusive:
  "\<not> (prefix ''youtube.com/watch?v='' s \<and> prefix ''youtu.be/'' s)"
proof
  assume "prefix ''youtube.com/watch?v='' s \<and> prefix ''youtu.be/'' s"
  then have "prefix ''youtube.com/watch?v='' ''youtu.be/'' \<or>
             prefix ''youtu.be/'' ''youtube.com/watch?v=''"
    using prefix_same_cases by blast
  then show False by simp
qed

lemma getYouTubeVideoId_at_iff:
  "getYouTubeVideoId_at s = Some v \<longleftrightarrow> id_after_marker s v"
proof (cases "prefix ''youtube.com/watch?v='' s")
  case True
  then have "\<not> prefix ''youtu.be/'' s"
    using markers_exclusive [of s] by simp
  with True show ?thesis
    unfolding getYouTubeVideoId_at_def getYouTubeVideoId_group_def id_after_marker_def
      class_eq Let_def
    by (auto simp del: Cons_prefix_Cons drop_Suc_Cons)
next
  case False
  then show ?thesis
    unfolding getYouTubeVideoId_at_def getYouTubeVideoId_group_def id_after_marker_def
      class_eq Let_def
    by (auto simp del: Cons_prefix_Cons drop_Suc_Cons)
qed

lemma getYouTubeVideoId_at_None:
  "getYouTubeVideoId_at s = None \<longleftrightarrow> (\<forall>v. \<not> id_after_marker s v)"
  using getYouTubeVideoId_at_iff [of s] by (cases "getYouTubeVideoId_at s") auto

lemma getYouTubeVideoId_Some:
  "getYouTubeVideoId url = Some v \<longleftrightarrow>
     (\<exists>n\<le>length url. id_after_marker (drop n url) v \<and>
        (\<forall>k<n. \<forall>v'. \<not> id_after_marker (drop k url) v'))"
proof (induction url)
  case Nil
  have "\<not> id_after_marker [] v"
    using getYouTubeVideoId_at_iff [of "[]" v] by (simp add: getYouTubeVideoId_at_def)
  then show ?case by (simp add: getYouTubeVideoId_at_def)
next
  case (Cons c cs)
  show ?case
  proof (cases "getYouTubeVideoId_at (c # cs)")
    case None
    then have no: "\<not> id_after_marker (c # cs) v'" for v'
      by (simp add: getYouTubeVideoId_at_None)
    have eq: "getYouTubeVideoId (c # cs) = getYouTubeVideoId cs"
      using None by simp
    show ?thesis
    proof
      assume "getYouTubeVideoId (c # cs) = Some v"
      then obtain n where n: "n \<le> length cs" "id_after_marker (drop n cs) v"
        "\<forall>k<n. \<forall>v'. \<not> id_after_marker (drop k cs) v'"
        using eq Cons.IH by auto
      have "\<forall>k<Suc n. \<forall>v'. \<not> id_after_marker (drop k (c # cs)) v'"
      proof (intro allI impI)
        fix k v' assume "k < Suc n"
        then show "\<not> id_after_marker (drop k (c # cs)) v'"
          using no n(3) by (cases k) simp_all
      qed
      with n(1,2) show "\<exists>n\<le>length (c # cs). id_after_marker (drop n (c # cs)) v \<and>
          (\<forall>k<n. \<forall>v'. \<not> id_after_marker (drop k (c # cs)) v')"
        by (intro exI [of _ "Suc n"]) simp
    next
      assume "\<exists>n\<le>length (c # cs). id_after_marker (drop n (c # cs)) v \<and>
          (\<forall>k<n. \<forall>v'. \<not> id_after_marker (drop k (c # cs)) v')"
      then obtain n where n: "n \<le> length (c # cs)" "id_after_marker (drop n (c # cs)) v"
        "\<forall>k<n. \<forall>v'. \<not> id_after_marker (drop k (c # cs)) v'"
        by blast
      from n(2) no obtain m where m: "n = Suc m"
        by (cases n) auto
      have "\<forall>k<m. \<forall>v'. \<not> id_after_marker (drop k cs) v'"
      proof (intro allI impI)
        fix k v' assume "k < m"
        then have "Suc k < n" using m by simp
        with n(3) have "\<not> id_after_marker (drop (Suc k) (c # cs)) v'" by blast
        then show "\<not> id_after_marker (drop k cs) v'" by simp
      qed
      moreover have "m \<le> length cs" "id_after_marker (drop m cs) v"
        using n(1,2) m by simp_all
      ultimately have "getYouTubeVideoId cs = Some v"
        using Cons.IH by blast
      then show "getYouTubeVideoId (c # cs) = Some v"
        using eq by simp
    qed
  next
    case (Some g)
    then have g: "id_after_marker (c # cs) g"
      by (simp add: getYouTubeVideoId_at_iff)
    have res: "getYouTubeVideoId (c # cs) = Some g"
      using Some by simp
    show ?thesis
    proof
      assume "getYouTubeVideoId (c # cs) = Some v"
      then have "v = g" using res by simp
      with g show "\<exists>n\<le>length (c # cs). id_after_marker (drop n (c # cs)) v \<and>
          (\<forall>k<n. \<forall>v'. \<not> id_after_marker (drop k (c # cs)) v')"
        by (intro exI [of _ 0]) simp
    next
      assume "\<exists>n\<le>length (c # cs). id_after_marker (drop n (c # cs)) v \<and>
          (\<forall>k<n. \<forall>v'. \<not> id_after_marker (drop k (c # cs)) v')"
      then obtain n where n: "id_after_marker (drop n (c # cs)) v"
        "\<forall>k<n. \<forall>v'. \<not> id_after_marker (drop k (c # cs)) v'"
        by blast
      have "n = 0"
      proof (rule ccontr)
        assume "n \<noteq> 0"
        then have "\<not> id_after_marker (drop 0 (c # cs)) g" using n(2) by blast
        with g show False by simp
      qed
      with n(1) have "getYouTubeVideoId_at (c # cs) = Some v"
        by (simp add: getYouTubeVideoId_at_iff)
      then show "getYouTubeVideoId (c # cs) = Some v"
        by simp
    qed
  qed
qed

lemma getYouTubeVideoId_None:
  "getYouTubeVideoId url = None \<longleftrightarrow>
     (\<forall>n\<le>length url. \<forall>v. \<not> id_after_marker (drop n url) v)"
proof (induction url)
  case Nil
  have "\<not> id_after_marker [] v" for v
    using getYouTubeVideoId_at_iff [of "[]" v] by (simp add: getYouTubeVideoId_at_def)
  then show ?case by (simp add: getYouTubeVideoId_at_def)
next
  case (Cons c cs)
  have split: "(\<forall>n\<le>length (c # cs). \<forall>v. \<not> id_after_marker (drop n (c # cs)) v) \<longleftrightarrow>
      (\<forall>v. \<not> id_after_marker (c # cs) v) \<and>
      (\<forall>n\<le>length cs. \<forall>v. \<not> id_after_marker (drop n cs) v)"
  proof
    assume a: "\<forall>n\<le>length (c # cs). \<forall>v. \<not> id_after_marker (drop n (c # cs)) v"
    have "\<not> id_after_marker (c # cs) v" for v
      using a [rule_format, of 0 v] by simp
    moreover have "\<not> id_after_marker (drop n cs) v" if "n \<le> length cs" for n v
      using a [rule_format, of "Suc n" v] that by simp
    ultimately show "(\<forall>v. \<not> id_after_marker (c # cs) v) \<and>
      (\<forall>n\<le>length cs. \<forall>v. \<not> id_after_marker (drop n cs) v)" by blast
  next
    assume b: "(\<forall>v. \<not> id_after_marker (c # cs) v) \<and>
      (\<forall>n\<le>length cs. \<forall>v. \<not> id_after_marker (drop n cs) v)"
    show "\<forall>n\<le>length (c # cs). \<forall>v. \<not> id_after_marker (drop n (c # cs)) v"
    proof (intro allI impI)
      fix n v assume "n \<le> length (c # cs)"
      then show "\<not> id_after_marker (drop n (c # cs)) v"
        using b by (cases n) simp_all
    qed
  qed
  show ?case
  proof (cases "getYouTubeVideoId_at (c # cs)")
    case None
    then have eq: "getYouTubeVideoId (c # cs) = getYouTubeVideoId cs"
      by simp
    have "\<forall>v. \<not> id_after_marker (c # cs) v"
      using None by (simp add: getYouTubeVideoId_at_None)
    then show ?thesis
      unfolding split eq using Cons.IH by simp
  next
    case (Some g)
    then have "id_after_marker (c # cs) g"
      by (simp add: getYouTubeVideoId_at_iff)
    then show ?thesis
      unfolding split using Some by auto
  qed
qed

text \<open>
  C10, as the claim states it, fails where the first marker is followed by no character
  of the group: the group needs one character at least, so the match does not return the
  empty substring there. It fails at that position, and \<open>match\<close> returns \<open>null\<close> or the
  group of a later occurrence.
\<close>

theorem video_id_after_bare_marker:
  "getYouTubeVideoId_spec ''https://youtu.be/'' = Some [] \<and>
   getYouTubeVideoId ''https://youtu.be/'' = None \<and>
   getYouTubeVideoId_spec ''youtu.be/?x youtu.be/abc'' = Some [] \<and>
   getYouTubeVideoId ''youtu.be/?x youtu.be/abc'' = Some ''abc''"
  by code_simp

text \<open>
  C10, amended. \<open>getYouTubeVideoId\<close> returns \<open>null\<close> for a string containing neither
  marker. When the first occurrence of a marker is followed by at least one character
  other than \<open>&\<close>, newline, \<open>?\<close> and \<open>#\<close>, it returns the substring from there up to the
  first of these characters. In general it returns that substring for the first
  position of \<open>url\<close> at which a marker is followed by at least one such character (an
  occurrence of a marker followed by none is passed over), and \<open>null\<close> exactly when
  there is no such position. It never returns the empty string, and the thumbnail is
  rendered exactly when an id was extracted.
\<close>

theorem video_id_extracted:
  "(\<not> sublist ''youtube.com/watch?v='' url \<and> \<not> sublist ''youtu.be/'' url \<longrightarrow>
      getYouTubeVideoId url = None) \<and>
   (getYouTubeVideoId_spec url = Some v \<and> v \<noteq> [] \<longrightarrow> getYouTubeVideoId url = Some v) \<and>
   getYouTubeVideoId url \<noteq> Some [] \<and>
   (thumbnail url \<noteq> None \<longleftrightarrow> getYouTubeVideoId url \<noteq> None) \<and>
   (getYouTubeVideoId url = Some v \<longleftrightarrow>
      (\<exists>n\<le>length url. id_after_marker (drop n url) v \<and>
         (\<forall>k<n. \<forall>v'. \<not> id_after_marker (drop k url) v'))) \<and>
   (getYouTubeVideoId url = None \<longleftrightarrow>
      (\<forall>n\<le>length url. \<forall>v'. \<not> id_after_marker (drop n url) v'))"
proof (intro conjI impI)
  show "getYouTubeVideoId url = None"
    if "\<not> sublist ''youtube.com/watch?v='' url \<and> \<not> sublist ''youtu.be/'' url"
    by (rule getYouTubeVideoId_no_marker) (simp add: after_first_marker_None that)
  show "getYouTubeVideoId url = Some v" if "getYouTubeVideoId_spec url = Some v \<and> v \<noteq> []"
    using that getYouTubeVideoId_agrees [of url v] by (elim conjE)
  show "getYouTubeVideoId url \<noteq> Some []"
    by (rule getYouTubeVideoId_nonempty)
  show "thumbnail url \<noteq> None \<longleftrightarrow> getYouTubeVideoId url \<noteq> None"
    using getYouTubeVideoId_nonempty [of url]
    by (cases "getYouTubeVideoId url") (simp_all add: thumbnail_def)
  show "getYouTubeVideoId url = Some v \<longleftrightarrow>
      (\<exists>n\<le>length url. id_after_marker (drop n url) v \<and>
         (\<forall>k<n. \<forall>v'. \<not> id_after_marker (drop k url) v'))"
    by (rule getYouTubeVideoId_Some)
  show "getYouTubeVideoId url = None \<longleftrightarrow>
      (\<forall>n\<le>length url. \<forall>v'. \<not> id_after_marker (drop n url) v')"
    by (rule getYouTubeVideoId_None)
qed

lemma example_urls:
  "\<not> sublist ''youtube.com/watch?v='' ''https://example.com/''"
  "\<not> sublist ''youtu.be/'' ''https://example.com/''"
  "getYouTubeVideoId_spec ''https://youtu.be/abc?t=3'' = Some ''abc''"
  "getYouTubeVideoId ''youtu.be/?x youtu.be/abc'' = Some ''abc''"
  by code_simp+

theorem video_id_extracted_witness:
  "\<not> sublist ''youtube.com/watch?v='' ''https://example.com/'' \<and>
   \<not> sublist ''youtu.be/'' ''https://example.com/'' \<and>
   getYouTubeVideoId ''https://example.com/'' = None \<and>
   getYouTubeVideoId_spec ''https://youtu.be/abc?t=3'' = Some ''abc'' \<and>
   ''abc'' \<noteq> [] \<and>
   getYouTubeVideoId ''https://youtu.be/abc?t=3'' = Some ''abc'' \<and>
   thumbnail ''https://youtu.be/abc?t=3'' \<noteq> None \<and>
   (\<exists>n\<le>length ''youtu.be/?x youtu.be/abc''.
      id_after_marker (drop n ''youtu.be/?x youtu.be/abc'') ''abc'') \<and>
   \<not> id_after_marker ''youtu.be/?x youtu.be/abc'' ''abc''"
proof -
  note a = video_id_extracted [of "''https://example.com/''" "[]"]
  note b = video_id_extracted [of "''https://youtu.be/abc?t=3''" "''abc''"]
  note c = video_id_extracted [of "''youtu.be/?x youtu.be/abc''" "''abc''"]
  have 1: "getYouTubeVideoId ''https://example.com/'' = None"
    using a example_urls(1,2) by blast
  have 2: "getYouTubeVideoId ''https://youtu.be/abc?t=3'' = Some ''abc''"
    using b example_urls(3) by blast
  have 3: "thumbnail ''https://youtu.be/abc?t=3'' \<noteq> None"
    using b 2 by simp
  have 4: "\<exists>n\<le>length ''youtu.be/?x youtu.be/abc''.
      id_after_marker (drop n ''youtu.be/?x youtu.be/abc'') ''abc''"
    using c example_urls(4) by blast
  have 5: "\<not> id_after_marker ''youtu.be/?x youtu.be/abc'' ''abc''"
    by (simp add: id_after_marker_def)
  show ?thesis
    using 1 2 3 4 5 example_urls(1,2,3) by simp
qed

section \<open>Failures in the admin forms\<close>

lemma trim_blank: "trim ''  '' = []" "trim ''Physics'' = ''Physics''" "trim ''Maths'' = ''Maths''"
  by (simp_all add: trim_def WhiteSpace_def)

text \<open>
  C7, as the claim states it, fails. With a blank subject name \<open>handleSave\<close> returns at
  once, and so does \<open>handleAddNote\<close> with no file: the promise is fulfilled, nothing is
  written and nothing is said. When the store refuses the insert or the update of a
  subject, the handler catches the error and writes it to the console: the promise is
  fulfilled then as well.
\<close>

theorem failures_not_surfaced:
  "handleSave sample_db (users_id administrator) ''s2'' 9 adding_blank =
     Inr (sample_db, adding_blank, []) \<and>
   handleAddNote sample_db (users_id administrator) pdfs_bucket ''k3j2'' ''n2'' 9
       note_without_file =
     Inr (sample_db, note_without_file, []) \<and>
   handleSave sample_db (users_id newcomer) ''s2'' 9 adding_Physics =
     Inr (sample_db, adding_Physics,
          [console_error ''Error saving subject:'' (PostgrestError infinite_recursion)]) \<and>
   handleSave sample_db (users_id newcomer) ''s2'' 9 renaming_Mathematics =
     Inr (sample_db, renaming_Mathematics,
          [console_error ''Error saving subject:'' (PostgrestError infinite_recursion)])"
proof -
  have 1: "handleSave sample_db (users_id administrator) ''s2'' 9 adding_blank =
     Inr (sample_db, adding_blank, [])"
    by (simp add: handleSave_def adding_blank_def trim_blank)
  have 2: "handleAddNote sample_db (users_id administrator) pdfs_bucket ''k3j2'' ''n2'' 9
       note_without_file = Inr (sample_db, note_without_file, [])"
    by (simp add: handleAddNote_def note_without_file_def)
  have 3: "handleSave sample_db (users_id newcomer) ''s2'' 9 adding_Physics =
     Inr (sample_db, adding_Physics,
          [console_error ''Error saving subject:'' (PostgrestError infinite_recursion)])"
    by (simp add: handleSave_def handleSave_try_def adding_Physics_def trim_blank
        write_recursion)
  have 4: "handleSave sample_db (users_id newcomer) ''s2'' 9 renaming_Mathematics =
     Inr (sample_db, renaming_Mathematics,
          [console_error ''Error saving subject:'' (PostgrestError infinite_recursion)])"
    by (simp add: handleSave_def handleSave_try_def renaming_Mathematics_def trim_blank
        write_recursion)
  from 1 2 3 4 show ?thesis by (intro conjI)
qed

lemma handleSave_fulfilled: "\<exists>r. handleSave db uid g now st = Inr r"
  by (auto simp: handleSave_def split: option.splits sum.splits)

lemma handleAddNote_fulfilled: "\<exists>r. handleAddNote db uid pdfs random g now st = Inr r"
  by (auto simp: handleAddNote_def split: option.splits sum.splits)

lemma handleSave_invalid:
  assumes "sm_editingSubject st = None \<or>
           (\<exists>es. sm_editingSubject st = Some es \<and> trim (editing_name es) = [])"
  shows "handleSave db uid g now st = Inr (db, st, [])"
  using assms by (auto simp: handleSave_def)

lemma handleAddNote_invalid:
  assumes "newNote_title (cm_newNote st) = [] \<or> newNote_file (cm_newNote st) = None \<or>
           cm_selectedSubject st = []"
  shows "handleAddNote db uid pdfs random g now st = Inr (db, st, [])"
  using assms by (auto simp: handleAddNote_def split: option.splits)

lemma handleSave_insert_error:
  assumes "sm_editingSubject st = Some es" and "trim (editing_name es) \<noteq> []"
    and "editing_id es = None \<or> editing_id es = Some []"
    and "insert_subjects_select_single db uid
           \<lparr>subjects_id = g, subjects_name = trim (editing_name es),
            subjects_description = trim_or_null (editing_description es),
            subjects_created_at = now\<rparr> = Inl e"
  shows "handleSave db uid g now st =
           Inr (db, st, [console_error ''Error saving subject:'' (PostgrestError e)])"
  using assms by (auto simp: handleSave_def handleSave_try_def)

lemma handleSave_update_error:
  assumes "sm_editingSubject st = Some es" and "trim (editing_name es) \<noteq> []"
    and "editing_id es = Some i" and "i \<noteq> []"
    and "update_subjects db uid (trim (editing_name es))
           (trim_or_null (editing_description es)) i = Inl e"
  shows "handleSave db uid g now st =
           Inr (db, st, [console_error ''Error saving subject:'' (PostgrestError e)])"
  using assms by (simp add: handleSave_def handleSave_try_def)

lemma handleAddNote_upload_error:
  assumes "newNote_title (cm_newNote st) \<noteq> []" and "newNote_file (cm_newNote st) = Some pdf"
    and "cm_selectedSubject st \<noteq> []"
    and "upload pdfs (''pdfs/'' @ random @ ''.'' @ split_pop (file_name pdf)) = Some e"
  shows "handleAddNote db uid pdfs random g now st =
           Inr (db, st\<lparr>cm_uploadingFile := False\<rparr>,
                [console_error ''Error adding note:'' (StorageError e)])"
  using assms
  by (simp add: handleAddNote_def handleAddNote_try_def handleFileUpload_def Let_def)

lemma handleAddNote_insert_error:
  assumes "newNote_title (cm_newNote st) \<noteq> []" and "newNote_file (cm_newNote st) = Some pdf"
    and "cm_selectedSubject st \<noteq> []"
    and "upload pdfs (''pdfs/'' @ random @ ''.'' @ split_pop (file_name pdf)) = None"
    and "insert_notes db uid
           \<lparr>notes_id = g, notes_subject_id = cm_selectedSubject st,
            notes_title = newNote_title (cm_newNote st),
            notes_pdf_url =
              getPublicUrl pdfs (''pdfs/'' @ random @ ''.'' @ split_pop (file_name pdf)),
            notes_created_at = now\<rparr> = Inl e"
  shows "handleAddNote db uid pdfs random g now st =
           Inr (db, st\<lparr>cm_uploadingFile := False\<rparr>,
                [console_error ''Error adding note:'' (PostgrestError e)])"
  using assms
  by (simp add: handleAddNote_def handleAddNote_try_def handleFileUpload_def Let_def)

text \<open>
  C7, amended. \<open>handleSave\<close> and \<open>handleAddNote\<close> never reject. On a validation failure
  (no subject being edited or a blank name; a missing title, file or subject) they
  return without a request to the store, leaving database and form as they were and
  writing nothing. An error of the store (the refusal of the insert or update of a
  subject, or of the insert of a note) or of the file storage is caught and written
  with \<open>console.error\<close>, the database and the form left as they were.
\<close>

theorem failures_logged_or_silent:
  "(\<exists>r. handleSave db uid g now st = Inr r) \<and>
   (\<exists>r. handleAddNote db uid pdfs random g now cst = Inr r) \<and>
   (sm_editingSubject st = None \<or>
    (\<exists>es. sm_editingSubject st = Some es \<and> trim (editing_name es) = []) \<longrightarrow>
      handleSave db uid g now st = Inr (db, st, [])) \<and>
   (newNote_title (cm_newNote cst) = [] \<or> newNote_file (cm_newNote cst) = None \<or>
    cm_selectedSubject cst = [] \<longrightarrow>
      handleAddNote db uid pdfs random g now cst = Inr (db, cst, [])) \<and>
   (sm_editingSubject st = Some es \<and> trim (editing_name es) \<noteq> [] \<and>
    (editing_id es = None \<or> editing_id es = Some []) \<and>
    insert_subjects_select_single db uid
      \<lparr>subjects_id = g, subjects_name = trim (editing_name es),
       subjects_description = trim_or_null (editing_description es),
       subjects_created_at = now\<rparr> = Inl e \<longrightarrow>
      handleSave db uid g now st =
        Inr (db, st, [console_error ''Error saving subject:'' (PostgrestError e)])) \<and>
   (sm_editingSubject st = Some es \<and> trim (editing_name es) \<noteq> [] \<and>
    editing_id es = Some i \<and> i \<noteq> [] \<and>
    update_subjects db uid (trim (editing_name es))
      (trim_or_null (editing_description es)) i = Inl e \<longrightarrow>
      handleSave db uid g now st =
        Inr (db, st, [console_error ''Error saving subject:'' (PostgrestError e)])) \<and>
   (newNote_title (cm_newNote cst) \<noteq> [] \<and> newNote_file (cm_newNote cst) = Some pdf \<and>
    cm_selectedSubject cst \<noteq> [] \<and>
    upload pdfs (''pdfs/'' @ random @ ''.'' @ split_pop (file_name pdf)) = Some ue \<longrightarrow>
      handleAddNote db uid pdfs random g now cst =
        Inr (db, cst\<lparr>cm_uploadingFile := False\<rparr>,
             [console_error ''Error adding note:'' (StorageError ue)])) \<and>
   (newNote_title (cm_newNote cst) \<noteq> [] \<and> newNote_file (cm_newNote cst) = Some pdf \<and>
    cm_selectedSubject cst \<noteq> [] \<and>
    upload pdfs (''pdfs/'' @ random @ ''.'' @ split_pop (file_name pdf)) = None \<and>
    insert_notes db uid
      \<lparr>notes_id = g, notes_subject_id = cm_selectedSubject cst,
       notes_title = newNote_title (cm_newNote cst),
       notes_pdf_url =
         getPublicUrl pdfs (''pdfs/'' @ random @ ''.'' @ split_pop (file_name pdf)),
       notes_created_at = now\<rparr> = Inl e \<longrightarrow>
      handleAddNote db uid pdfs random g now cst =
        Inr (db, cst\<lparr>cm_uploadingFile := False\<rparr>,
             [console_error ''Error adding note:'' (PostgrestError e)]))"
proof (intro conjI impI)
  show "\<exists>r. handleSave db uid g now st = Inr r"
    by (rule handleSave_fulfilled)
  show "\<exists>r. handleAddNote db uid pdfs random g now cst = Inr r"
    by (rule handleAddNote_fulfilled)
  show "handleSave db uid g now st = Inr (db, st, [])"
    if "sm_editingSubject st = None \<or>
        (\<exists>es. sm_editingSubject st = Some es \<and> trim (editing_name es) = [])"
    by (rule handleSave_invalid [OF that])
  show "handleAddNote db uid pdfs random g now cst = Inr (db, cst, [])"
    if "newNote_title (cm_newNote cst) = [] \<or> newNote_file (cm_newNote cst) = None \<or>
        cm_selectedSubject cst = []"
    by (rule handleAddNote_invalid [OF that])
  show "handleSave db uid g now st =
        Inr (db, st, [console_error ''Error saving subject:'' (PostgrestError e)])"
    if "sm_editingSubject st = Some es \<and> trim (editing_name es) \<noteq> [] \<and>
        (editing_id es = None \<or> editing_id es = Some []) \<and>
        insert_subjects_select_single db uid
          \<lparr>subjects_id = g, subjects_name = trim (editing_name es),
           subjects_description = trim_or_null (editing_description es),
           subjects_created_at = now\<rparr> = Inl e"
    using that by (intro handleSave_insert_error [where es = es]) simp_all
  show "handleSave db uid g now st =
        Inr (db, st, [console_error ''Error saving subject:'' (PostgrestError e)])"
    if "sm_editingSubject st = Some es \<and> trim (editing_name es) \<noteq> [] \<and>
        editing_id es = Some i \<and> i \<noteq> [] \<and>
        update_subjects db uid (trim (editing_name es))
          (trim_or_null (editing_description es)) i = Inl e"
    using that by (intro handleSave_update_error [where es = es and i = i]) simp_all
  show "handleAddNote db uid pdfs random g now cst =
        Inr (db, cst\<lparr>cm_uploadingFile := False\<rparr>,
             [console_error ''Error adding note:'' (StorageError ue)])"
    if "newNote_title (cm_newNote cst) \<noteq> [] \<and> newNote_file (cm_newNote cst) = Some pdf \<and>
        cm_selectedSubject cst \<noteq> [] \<and>
        upload pdfs (''pdfs/'' @ random @ ''.'' @ split_pop (file_name pdf)) = Some ue"
    using that by (intro handleAddNote_upload_error [where pdf = pdf]) simp_all
  show "handleAddNote db uid pdfs random g now cst =
        Inr (db, cst\<lparr>cm_uploadingFile := False\<rparr>,
             [console_error ''Error adding note:'' (PostgrestError e)])"
    if "newNote_title (cm_newNote cst) \<noteq> [] \<and> newNote_file (cm_newNote cst) = Some pdf \<and>
        cm_selectedSubject cst \<noteq> [] \<and>
        upload pdfs (''pdfs/'' @ random @ ''.'' @ split_pop (file_name pdf)) = None \<and>
        insert_notes db uid
          \<lparr>notes_id = g, notes_subject_id = cm_selectedSubject cst,
           notes_title = newNote_title (cm_newNote cst),
           notes_pdf_url =
             getPublicUrl pdfs (''pdfs/'' @ random @ ''.'' @ split_pop (file_name pdf)),
           notes_created_at = now\<rparr> = Inl e"
    using that by (intro handleAddNote_insert_error [where pdf = pdf]) simp_all
qed

theorem failures_logged_or_silent_witness:
  "sm_editingSubject adding_blank =
     Some \<lparr>editing_id = None, editing_name = ''  '', editing_description = Some []\<rparr> \<and>
   trim ''  '' = [] \<and>
   handleSave sample_db ''u1'' ''n2'' 9 adding_blank = Inr (sample_db, adding_blank, []) \<and>
   newNote_file (cm_newNote note_without_file) = None \<and>
   handleAddNote sample_db ''u1'' pdfs_bucket ''k3j2'' ''n2'' 9 note_without_file =
     Inr (sample_db, note_without_file, []) \<and>
   sm_editingSubject adding_Physics =
     Some \<lparr>editing_id = None, editing_name = ''Physics'', editing_description = Some []\<rparr> \<and>
   trim ''Physics'' \<noteq> [] \<and>
   handleSave sample_db ''u1'' ''n2'' 9 adding_Physics =
     Inr (sample_db, adding_Physics,
          [console_error ''Error saving subject:'' (PostgrestError infinite_recursion)]) \<and>
   upload pdfs_bucket ''pdfs/k3j2.pdf'' = None \<and>
   handleAddNote sample_db ''u1'' pdfs_bucket ''k3j2'' ''n2'' 9 note_with_file =
     Inr (sample_db, note_with_file,
          [console_error ''Error adding note:'' (PostgrestError infinite_recursion)])"
proof -
  note a = failures_logged_or_silent [of sample_db "''u1''" "''n2''" 9 adding_blank
      pdfs_bucket "''k3j2''" note_without_file
      "\<lparr>editing_id = None, editing_name = ''  '', editing_description = Some []\<rparr>"
      infinite_recursion "[]" "\<lparr>file_name = ''linear.algebra.pdf''\<rparr>" "[]"]
  note b = failures_logged_or_silent [of sample_db "''u1''" "''n2''" 9 adding_Physics
      pdfs_bucket "''k3j2''" note_with_file
      "\<lparr>editing_id = None, editing_name = ''Physics'', editing_description = Some []\<rparr>"
      infinite_recursion "[]" "\<lparr>file_name = ''linear.algebra.pdf''\<rparr>" "[]"]
  have e: "sm_editingSubject adding_blank =
     Some \<lparr>editing_id = None, editing_name = ''  '', editing_description = Some []\<rparr>"
    "sm_editingSubject adding_Physics =
     Some \<lparr>editing_id = None, editing_name = ''Physics'', editing_description = Some []\<rparr>"
    by (simp_all add: adding_blank_def adding_Physics_def)
  have up: "upload pdfs_bucket p = None" for p
    by (simp add: pdfs_bucket_def)
  have 1: "handleSave sample_db ''u1'' ''n2'' 9 adding_blank = Inr (sample_db, adding_blank, [])"
    using a e(1) trim_blank(1) by simp
  have 2: "handleAddNote sample_db ''u1'' pdfs_bucket ''k3j2'' ''n2'' 9 note_without_file =
     Inr (sample_db, note_without_file, [])"
    using a by (simp add: note_without_file_def)
  have 3: "handleSave sample_db ''u1'' ''n2'' 9 adding_Physics =
     Inr (sample_db, adding_Physics,
          [console_error ''Error saving subject:'' (PostgrestError infinite_recursion)])"
    using b e(2) trim_blank(2) by (simp add: write_recursion)
  have 4: "handleAddNote sample_db ''u1'' pdfs_bucket ''k3j2'' ''n2'' 9 note_with_file =
     Inr (sample_db, note_with_file\<lparr>cm_uploadingFile := False\<rparr>,
          [console_error ''Error adding note:'' (PostgrestError infinite_recursion)])"
    using b up by (simp add: write_recursion note_with_file_def note_without_file_def)
  have 5: "note_with_file\<lparr>cm_uploadingFile := False\<rparr> = note_with_file"
    by (simp add: note_with_file_def note_without_file_def)
  show ?thesis
    using 1 2 3 4 e up trim_blank(1,2) unfolding 5 by (simp add: note_without_file_def)
qed

end
